theory Spec2Isabelle
  imports Complex_Main "HOL-Library.AList" "HOL-Library.Log_Nat"
begin

section \<open>Data model of the performance profiler (src/monitoring/Profiler.js)\<close>

text \<open>
  Clock readings (\<open>Date.now()\<close>, milliseconds) and byte counts are \<open>int\<close>: integers
  below \<open>2^53\<close>, which the code only compares and subtracts. The durations of
  performance entries and the time deltas of a profile are JavaScript numbers with the
  rounding of double arithmetic (\<open>number\<close>, below). A \<open>Map\<close> is an association list in
  insertion order (\<open>Map.set\<close> is \<open>AList.update\<close>, \<open>Map.get\<close> is \<open>map_of\<close>, \<open>Map.delete\<close>
  is \<open>AList.delete\<close>). Every reading of the environment (the clock, the memory counters,
  the outcome of a file operation) is an explicit argument. A call that awaits is split
  where other calls can run in between (the capture methods); the loop of
  \<open>cleanupProfiles\<close> is taken as one step.
\<close>

subsection \<open>JavaScript numbers\<close>

text \<open>
  A number is a finite double, given by the rational it stands for, an infinity or
  \<open>NaN\<close>; the two zeros are one value. \<open>fl\<close> rounds a rational to the nearest double,
  ties to the even significand: 53 significant bits, exponents from -1022 (below, the
  spacing stays \<open>2^-1074\<close>), and infinity from \<open>2^1024\<close> on.
\<close>

datatype number = Fin rat | PosInf | NegInf | NaN

text \<open>The binary exponent of a positive rational: \<open>2^e \<le> a < 2^(e+1)\<close>.\<close>

definition exponentOf :: "rat \<Rightarrow> int" where
  "exponentOf a =
     (if 1 \<le> a then int (floorlog 2 (nat \<lfloor>a\<rfloor>)) - 1
      else - int (floorlog 2 (nat (\<lceil>1 / a\<rceil> - 1))))"

definition roundHalfEven :: "rat \<Rightarrow> int" where
  "roundHalfEven m =
     (let f = \<lfloor>m\<rfloor>; d = m - of_int f
      in if d < 1 / 2 then f else if 1 / 2 < d then f + 1 else if even f then f else f + 1)"

definition overflowBound :: rat where
  "overflowBound = 2 ^ 1024"

definition fl :: "rat \<Rightarrow> number" where
  "fl x =
     (if x = 0 then Fin 0
      else
        let a = \<bar>x\<bar>;
            e = max (exponentOf a) (- 1022);
            q = 2 powi (e - 52);
            r = of_int (roundHalfEven (a / q)) * q
        in if overflowBound \<le> r then (if 0 < x then PosInf else NegInf)
           else Fin (if 0 < x then r else - r))"

text \<open>\<open>x + y\<close>\<close>

fun jsAdd :: "number \<Rightarrow> number \<Rightarrow> number" where
  "jsAdd NaN y = NaN"
| "jsAdd x NaN = NaN"
| "jsAdd PosInf NegInf = NaN"
| "jsAdd NegInf PosInf = NaN"
| "jsAdd PosInf y = PosInf"
| "jsAdd x PosInf = PosInf"
| "jsAdd NegInf y = NegInf"
| "jsAdd x NegInf = NegInf"
| "jsAdd (Fin a) (Fin b) = fl (a + b)"

text \<open>\<open>x / y\<close>; a zero divisor is \<open>+0\<close> (the code divides by a length).\<close>

fun jsDiv :: "number \<Rightarrow> number \<Rightarrow> number" where
  "jsDiv NaN y = NaN"
| "jsDiv x NaN = NaN"
| "jsDiv (Fin a) (Fin b) =
     (if b = 0 then (if a = 0 then NaN else if 0 < a then PosInf else NegInf)
      else fl (a / b))"
| "jsDiv (Fin a) y = Fin 0"
| "jsDiv PosInf (Fin b) = (if 0 \<le> b then PosInf else NegInf)"
| "jsDiv NegInf (Fin b) = (if 0 \<le> b then NegInf else PosInf)"
| "jsDiv x y = NaN"

text \<open>\<open>x > y\<close>\<close>

fun jsGt :: "number \<Rightarrow> number \<Rightarrow> bool" where
  "jsGt NaN y = False"
| "jsGt x NaN = False"
| "jsGt (Fin a) (Fin b) = (b < a)"
| "jsGt x PosInf = False"
| "jsGt PosInf y = True"
| "jsGt NegInf y = False"
| "jsGt x NegInf = True"

text \<open>The numbers that count as true in \<open>x || y\<close>: all but zero and \<open>NaN\<close>.\<close>

fun truthy :: "number \<Rightarrow> bool" where
  "truthy (Fin a) = (a \<noteq> 0)"
| "truthy NaN = False"
| "truthy x = True"

subsection \<open>Records of the profiler\<close>

record memoryUsage =
  rss :: int
  heapTotal :: int
  heapUsed :: int
  external :: int
  arrayBuffers :: int

text \<open>\<open>{ timestamp: Date.now(), ...memUsage }\<close>\<close>

record memorySample =
  m_timestamp :: int
  m_usage :: memoryUsage

record cpuUsage =
  user :: int
  system :: int

record cpuSample =
  c_timestamp :: int
  c_usage :: cpuUsage

text \<open>\<open>type: entry.detail?.type || 'unknown'\<close>: a missing or zero kind reads \<open>'unknown'\<close>.\<close>

datatype gcKind = GcKind int | GcUnknown

record gcDetail =
  d_type :: "int option"
  d_flags :: "int option"

record gcEvent =
  gc_timestamp :: int
  gc_duration :: rat
  gc_type :: gcKind
  gc_flags :: int

record operationRecord =
  op_timestamp :: int
  op_duration :: number
  op_startTime :: rat

record markRecord =
  mk_timestamp :: int
  mk_startTime :: rat

record metrics =
  cpu :: "cpuSample list"
  memory :: "memorySample list"
  gc :: "gcEvent list"
  operations :: "(string \<times> operationRecord list) list"

text \<open>
  Profile ids are the strings \<open>cpu_<ms>\<close>, \<open>heap_<ms>\<close> and \<open>memory_<ms>\<close>; the model keeps
  the two parts apart instead of printing the number. A file name is an id with its
  extension, a file path is \<open>path.join(outputDir, filename)\<close>, kept as the pair.
\<close>

datatype profileType = Cpu | Heap | Memory

type_synonym profileId = "profileType \<times> int"
type_synonym filename = "profileId \<times> string"
type_synonym filepath = "string \<times> filename"

record capturedProfile =
  p_type :: profileType
  p_filename :: filename
  p_filepath :: filepath
  p_timestamp :: int
  p_duration :: "int option"
  p_size :: "nat option"
  p_samples :: "nat option"

record performanceThresholds =
  t_cpuUsage :: int
  t_memoryUsage :: int
  gcFrequency :: int

record config =
  outputDir :: string
  autoProfile :: bool
  profileDuration :: int
  heapSnapshotInterval :: int
  thresholds :: performanceThresholds

text \<open>The events handed to \<open>this.emit\<close>, with their payloads.\<close>

datatype event =
    Started
  | Stopped
  | HighGcFrequency nat int
  | HighMemoryUsage int int
  | SlowOperation string number int
  | ProfileComplete profileType profileId filepath

text \<open>The calls on \<open>this.logger\<close>, one constructor per message template.\<close>

datatype logEntry =
    Warn_AlreadyRunning
  | Info_Starting
  | Warn_InspectorConnected
  | Info_Stopping
  | Debug_Function string rat
  | Info_StartCpu profileId int
  | Success_CpuSaved filename
  | Info_TakingHeap profileId
  | Success_HeapSaved filename nat
  | Info_StartMemory profileId int
  | Success_MemorySaved filename
  | Error_SaveMemoryFailed
  | Info_Deleted filename
  | Error_DeleteFailed filename
  | Info_CleanedUp nat

text \<open>
  The inspector session held in \<open>this.session\<close> (\<open>null\<close> is \<open>None\<close>): created by
  \<open>new inspector.Session()\<close>, then connected.
\<close>

datatype inspectorSession = Created | Connected

record profiler =
  cfg :: config
  isRunning :: bool
  profiles :: "(profileId \<times> capturedProfile) list"
  performanceMarks :: "(string \<times> markRecord) list"
  metrics :: metrics
  session :: "inspectorSession option"
  emitted :: "event list"
  logged :: "logEntry list"

definition emit :: "event \<Rightarrow> profiler \<Rightarrow> profiler" where
  "emit e s = s\<lparr>emitted := emitted s @ [e]\<rparr>"

definition logger :: "logEntry \<Rightarrow> profiler \<Rightarrow> profiler" where
  "logger l s = s\<lparr>logged := logged s @ [l]\<rparr>"

text \<open>
  The constructor, with the merged configuration as its argument. The subscription of
  the performance observer and the creation of the output directory leave the fields
  below as they are.
\<close>

definition newProfiler :: "config \<Rightarrow> profiler" where
  "newProfiler c =
     \<lparr>cfg = c, isRunning = False, profiles = [], performanceMarks = [],
      metrics = \<lparr>cpu = [], memory = [], gc = [], operations = []\<rparr>,
      session = None, emitted = [], logged = []\<rparr>"

section \<open>Session lifecycle\<close>

text \<open>
  \<open>start()\<close>: \<open>inspectorOpen\<close> says whether \<open>inspector.url()\<close> is set, \<open>openOk\<close>
  whether \<open>inspector.open()\<close> returns, \<open>connectOk\<close> whether \<open>session.connect()\<close>
  returns. When one of them throws, the call is rejected with \<open>isRunning\<close> already set.
  The two timers it sets up are the later calls of \<open>monitorTick\<close> and of the capture
  methods.
\<close>

datatype error = NotActive | SessionFailed | CaptureFailed | PersistenceFailed

definition start :: "bool \<Rightarrow> bool \<Rightarrow> bool \<Rightarrow> profiler \<Rightarrow> error option \<times> profiler" where
  "start inspectorOpen openOk connectOk s =
     (if isRunning s then (None, logger Warn_AlreadyRunning s)
      else
        let s1 = logger Info_Starting (s\<lparr>isRunning := True\<rparr>);
            s2 = (if inspectorOpen then logger Warn_InspectorConnected s1 else s1)
        in if \<not> inspectorOpen \<and> \<not> openOk then (Some SessionFailed, s2)
           else if \<not> connectOk then (Some SessionFailed, s2\<lparr>session := Some Created\<rparr>)
           else (None, emit Started (s2\<lparr>session := Some Connected\<rparr>)))"

text \<open>\<open>stop()\<close>\<close>

definition stop :: "profiler \<Rightarrow> profiler" where
  "stop s =
     (if \<not> isRunning s then s
      else
        let s1 = logger Info_Stopping (s\<lparr>isRunning := False\<rparr>);
            s2 = (if session s1 \<noteq> None then s1\<lparr>session := None\<rparr> else s1)
        in emit Stopped s2)"

section \<open>Instrumentation listener and sampler\<close>

text \<open>
  The retention window and the look-back windows are the literals of the source:
  3600000 ms (one hour), 60000 ms (one minute), 300000 ms (five minutes).
\<close>

datatype performanceEntry =
    GcEntry rat "gcDetail option"
  | MeasureEntry string number rat
  | MarkEntry string rat
  | FunctionEntry string rat
  | OtherEntry

text \<open>
  \<open>_handleGCEntry(entry)\<close>: \<open>tPush\<close>, \<open>tEvict\<close> and \<open>tCheck\<close> are the three readings of
  the clock, in the order the source makes them (the time stamp of the new event, the
  eviction bound, the bound of the frequency check).
\<close>

definition gcKindOf :: "gcDetail option \<Rightarrow> gcKind" where
  "gcKindOf d =
     (case d of None \<Rightarrow> GcUnknown
      | Some dd \<Rightarrow> (case d_type dd of None \<Rightarrow> GcUnknown
                    | Some k \<Rightarrow> if k = 0 then GcUnknown else GcKind k))"

definition gcFlagsOf :: "gcDetail option \<Rightarrow> int" where
  "gcFlagsOf d =
     (case d of None \<Rightarrow> 0
      | Some dd \<Rightarrow> (case d_flags dd of None \<Rightarrow> 0 | Some f \<Rightarrow> f))"

definition handleGCEntry ::
  "rat \<Rightarrow> gcDetail option \<Rightarrow> int \<Rightarrow> int \<Rightarrow> int \<Rightarrow> profiler \<Rightarrow> profiler" where
  "handleGCEntry duration detail tPush tEvict tCheck s =
     (let pushed = gc (metrics s) @
            [\<lparr>gc_timestamp = tPush, gc_duration = duration,
              gc_type = gcKindOf detail, gc_flags = gcFlagsOf detail\<rparr>];
          oneHourAgo = tEvict - 3600000;
          kept = filter (\<lambda>g. gc_timestamp g > oneHourAgo) pushed;
          s1 = s\<lparr>metrics := (metrics s)\<lparr>gc := kept\<rparr>\<rparr>;
          recentGCs = filter (\<lambda>g. gc_timestamp g > tCheck - 60000) kept
      in if int (length recentGCs) > gcFrequency (thresholds (cfg s))
         then emit (HighGcFrequency (length recentGCs) (gcFrequency (thresholds (cfg s)))) s1
         else s1)"

text \<open>\<open>_handleMeasureEntry(entry)\<close>: the record is appended under the measure's name.\<close>

definition pushOperation ::
  "string \<Rightarrow> operationRecord \<Rightarrow> (string \<times> operationRecord list) list
     \<Rightarrow> (string \<times> operationRecord list) list" where
  "pushOperation operation r ops =
     (let ops1 = (if map_of ops operation = None then AList.update operation [] ops else ops)
      in case map_of ops1 operation of
           None \<Rightarrow> ops1
         | Some rs \<Rightarrow> AList.update operation (rs @ [r]) ops1)"

definition handleMeasureEntry ::
  "string \<Rightarrow> number \<Rightarrow> rat \<Rightarrow> int \<Rightarrow> profiler \<Rightarrow> profiler" where
  "handleMeasureEntry operation duration startTime now s =
     (let r = \<lparr>op_timestamp = now, op_duration = duration, op_startTime = startTime\<rparr>;
          s1 = s\<lparr>metrics := (metrics s)\<lparr>operations :=
                  pushOperation operation r (operations (metrics s))\<rparr>\<rparr>
      in if jsGt duration (Fin 1000) then emit (SlowOperation operation duration 1000) s1
         else s1)"

definition handleMarkEntry :: "string \<Rightarrow> rat \<Rightarrow> int \<Rightarrow> profiler \<Rightarrow> profiler" where
  "handleMarkEntry name startTime now s =
     s\<lparr>performanceMarks :=
         AList.update name \<lparr>mk_timestamp = now, mk_startTime = startTime\<rparr> (performanceMarks s)\<rparr>"

definition handleFunctionEntry :: "string \<Rightarrow> rat \<Rightarrow> profiler \<Rightarrow> profiler" where
  "handleFunctionEntry name duration s = logger (Debug_Function name duration) s"

text \<open>\<open>_handlePerformanceEntry(entry)\<close>: the switch on the entry type, without a default.\<close>

fun handlePerformanceEntry :: "performanceEntry \<Rightarrow> int \<Rightarrow> int \<Rightarrow> int \<Rightarrow> profiler \<Rightarrow> profiler" where
  "handlePerformanceEntry (GcEntry duration detail) t1 t2 t3 s =
     handleGCEntry duration detail t1 t2 t3 s"
| "handlePerformanceEntry (MeasureEntry name duration startTime) t1 t2 t3 s =
     handleMeasureEntry name duration startTime t1 s"
| "handlePerformanceEntry (MarkEntry name startTime) t1 t2 t3 s =
     handleMarkEntry name startTime t1 s"
| "handlePerformanceEntry (FunctionEntry name duration) t1 t2 t3 s =
     handleFunctionEntry name duration s"
| "handlePerformanceEntry OtherEntry t1 t2 t3 s = s"

text \<open>
  \<open>_collectSystemMetrics()\<close>: \<open>tMem\<close>, \<open>tCpu\<close> and \<open>tEvict\<close> are the three readings of
  the clock (the two time stamps and the eviction bound).
\<close>

definition collectSystemMetrics ::
  "memoryUsage \<Rightarrow> cpuUsage \<Rightarrow> int \<Rightarrow> int \<Rightarrow> int \<Rightarrow> profiler \<Rightarrow> profiler" where
  "collectSystemMetrics memUsage cpuUse tMem tCpu tEvict s =
     (let mem1 = memory (metrics s) @ [\<lparr>m_timestamp = tMem, m_usage = memUsage\<rparr>];
          cpu1 = cpu (metrics s) @ [\<lparr>c_timestamp = tCpu, c_usage = cpuUse\<rparr>];
          oneHourAgo = tEvict - 3600000;
          s1 = s\<lparr>metrics := (metrics s)
                  \<lparr>memory := filter (\<lambda>m. m_timestamp m > oneHourAgo) mem1,
                   cpu := filter (\<lambda>c. c_timestamp c > oneHourAgo) cpu1\<rparr>\<rparr>
      in if heapUsed memUsage > t_memoryUsage (thresholds (cfg s))
         then emit (HighMemoryUsage (heapUsed memUsage) (t_memoryUsage (thresholds (cfg s)))) s1
         else s1)"

text \<open>One tick of the 5-second interval set up by \<open>_startPerformanceMonitoring()\<close>.\<close>

definition monitorTick ::
  "memoryUsage \<Rightarrow> cpuUsage \<Rightarrow> int \<Rightarrow> int \<Rightarrow> int \<Rightarrow> profiler \<Rightarrow> profiler" where
  "monitorTick memUsage cpuUse tMem tCpu tEvict s =
     (if \<not> isRunning s then s else collectSystemMetrics memUsage cpuUse tMem tCpu tEvict s)"

section \<open>Bottleneck detector\<close>

datatype bottleneckType = high_gc_frequency | memory_leak | slow_operation

datatype severity = warning | critical

text \<open>
  The \<open>data\<close> object of a bottleneck, and its \<open>message\<close> as the template with the
  values it prints.
\<close>

datatype bottleneckData =
    GcData nat int
  | LeakData rat
  | SlowData string number nat

datatype bottleneckMessage =
    HighGcMessage nat
  | LeakMessage rat
  | SlowMessage string number

record bottleneck =
  b_type :: bottleneckType
  b_severity :: severity
  b_message :: bottleneckMessage
  b_data :: bottleneckData

text \<open>\<open>_calculateGrowthRate(values)\<close>\<close>

definition calculateGrowthRate :: "int list \<Rightarrow> rat" where
  "calculateGrowthRate values =
     (if length values < 2 then 0
      else
        let start = values ! 0;
            end = values ! (length values - 1);
            duration = length values
        in of_int (end - start) / of_nat duration)"

text \<open>\<open>xs.slice(-n)\<close>: the last \<open>n\<close> elements, all of them when there are fewer.\<close>

definition sliceLast :: "nat \<Rightarrow> 'a list \<Rightarrow> 'a list" where
  "sliceLast n xs = drop (length xs - n) xs"

text \<open>
  \<open>recent.reduce((sum, m) => sum + m.duration, 0) / recent.length\<close>, in double
  arithmetic: \<open>NaN\<close> on an empty list.
\<close>

definition avgDurationOf :: "operationRecord list \<Rightarrow> number" where
  "avgDurationOf recent =
     jsDiv (foldl (\<lambda>sum m. jsAdd sum (op_duration m)) (Fin 0) recent)
       (Fin (of_nat (length recent)))"

definition gcCheck :: "int \<Rightarrow> profiler \<Rightarrow> bottleneck list" where
  "gcCheck now s =
     (let recentGCs = filter (\<lambda>g. gc_timestamp g > now - 60000) (gc (metrics s))
      in if int (length recentGCs) > gcFrequency (thresholds (cfg s))
         then [\<lparr>b_type = high_gc_frequency, b_severity = warning,
                b_message = HighGcMessage (length recentGCs),
                b_data = GcData (length recentGCs) (gcFrequency (thresholds (cfg s)))\<rparr>]
         else [])"

definition memoryCheck :: "profiler \<Rightarrow> bottleneck list" where
  "memoryCheck s =
     (let recentMemory = sliceLast 10 (memory (metrics s))
      in if length recentMemory \<ge> 2 then
           let growthRate = calculateGrowthRate (map (\<lambda>m. heapUsed (m_usage m)) recentMemory)
           in if growthRate > 1024 * 1024
              then [\<lparr>b_type = memory_leak, b_severity = critical,
                     b_message = LeakMessage growthRate, b_data = LeakData growthRate\<rparr>]
              else []
         else [])"

definition operationCheck :: "int \<Rightarrow> string \<times> operationRecord list \<Rightarrow> bottleneck list" where
  "operationCheck now om =
     (case om of (operation, measurements) \<Rightarrow>
        let recent = filter (\<lambda>m. op_timestamp m > now - 300000) measurements;
            avgDuration = avgDurationOf recent
        in if jsGt avgDuration (Fin 1000) \<and> length recent > 5
           then [\<lparr>b_type = slow_operation, b_severity = warning,
                  b_message = SlowMessage operation avgDuration,
                  b_data = SlowData operation avgDuration (length recent)\<rparr>]
           else [])"

text \<open>
  \<open>detectBottlenecks()\<close> when the clock stands at \<open>now\<close> during the pass. The three
  checks push onto \<open>bottlenecks\<close> in this order.
\<close>

definition detectBottlenecks :: "int \<Rightarrow> profiler \<Rightarrow> bottleneck list" where
  "detectBottlenecks now s =
     gcCheck now s @ memoryCheck s @ concat (map (operationCheck now) (operations (metrics s)))"






section \<open>Flame graph builder\<close>

record callFrame =
  functionName :: string
  url :: string
  lineNumber :: int
  columnNumber :: int

record profileNode =
  n_id :: int
  n_callFrame :: callFrame

text \<open>The entry of \<open>nodeMap\<close>: the node with its index and the two accumulated times.\<close>

record nodeEntry =
  e_node :: profileNode
  e_index :: nat
  e_children :: "int list"
  selfTime :: number
  totalTime :: number

record flameNode =
  f_name :: string
  f_value :: number
  f_url :: string
  f_line :: int
  f_column :: int

text \<open>\<open>nodes.forEach((node, index) => nodeMap.set(node.id, {...}))\<close>\<close>

fun buildNodeMap ::
  "nat \<Rightarrow> profileNode list \<Rightarrow> (int \<times> nodeEntry) list \<Rightarrow> (int \<times> nodeEntry) list" where
  "buildNodeMap index [] nodeMap = nodeMap"
| "buildNodeMap index (node # nodes) nodeMap =
     buildNodeMap (Suc index) nodes
       (AList.update (n_id node)
          \<lparr>e_node = node, e_index = index, e_children = [],
            selfTime = Fin 0, totalTime = Fin 0\<rparr> nodeMap)"

text \<open>\<open>timeDeltas[index] || 1\<close>: an absent delta, a zero and \<open>NaN\<close> read 1.\<close>

definition timeDeltaAt :: "number list \<Rightarrow> nat \<Rightarrow> number" where
  "timeDeltaAt timeDeltas index =
     (if index < length timeDeltas \<and> truthy (timeDeltas ! index) then timeDeltas ! index
      else Fin 1)"

text \<open>The callback of \<open>samples.forEach((sample, index) => ...)\<close>, and the loop.\<close>

definition addSample ::
  "nat \<Rightarrow> int \<Rightarrow> number list \<Rightarrow> (int \<times> nodeEntry) list \<Rightarrow> (int \<times> nodeEntry) list" where
  "addSample index sample timeDeltas nodeMap =
     (let timeDelta = timeDeltaAt timeDeltas index
      in case map_of nodeMap sample of
           None \<Rightarrow> nodeMap
         | Some node \<Rightarrow>
             AList.update sample
               (node\<lparr>selfTime := jsAdd (selfTime node) timeDelta,
                     totalTime := jsAdd (totalTime node) timeDelta\<rparr>) nodeMap)"

fun addSamples ::
  "nat \<Rightarrow> int list \<Rightarrow> number list \<Rightarrow> (int \<times> nodeEntry) list \<Rightarrow> (int \<times> nodeEntry) list" where
  "addSamples index [] timeDeltas nodeMap = nodeMap"
| "addSamples index (sample # samples) timeDeltas nodeMap =
     addSamples (Suc index) samples timeDeltas (addSample index sample timeDeltas nodeMap)"

definition flameNodeOf :: "nodeEntry \<Rightarrow> flameNode" where
  "flameNodeOf node =
     \<lparr>f_name = (if functionName (n_callFrame (e_node node)) = [] then ''(anonymous)''
                else functionName (n_callFrame (e_node node))),
      f_value = totalTime node,
      f_url = url (n_callFrame (e_node node)),
      f_line = lineNumber (n_callFrame (e_node node)),
      f_column = columnNumber (n_callFrame (e_node node))\<rparr>"

text \<open>\<open>_processProfileNodes(nodes, samples, timeDeltas)\<close>\<close>

definition processProfileNodes ::
  "profileNode list \<Rightarrow> int list \<Rightarrow> number list \<Rightarrow> flameNode list" where
  "processProfileNodes nodes samples timeDeltas =
     map (\<lambda>kv. flameNodeOf (snd kv))
       (addSamples 0 samples timeDeltas (buildNodeMap 0 nodes []))"

text \<open>\<open>_convertToFlameGraph(profile)\<close>\<close>

record cpuProfile =
  nodes :: "profileNode list"
  startTime :: int
  endTime :: int
  samples :: "int list"
  timeDeltas :: "number list"

record flameGraph =
  g_name :: string
  g_value :: int
  g_children :: "flameNode list"

definition convertToFlameGraph :: "cpuProfile \<Rightarrow> flameGraph" where
  "convertToFlameGraph profile =
     \<lparr>g_name = ''root'', g_value = endTime profile - startTime profile,
      g_children = processProfileNodes (nodes profile) (samples profile) (timeDeltas profile)\<rparr>"

section \<open>Capture methods\<close>

text \<open>The summary written by \<open>_analyzeMemoryProfile(samples)\<close>; the empty object is \<open>None\<close>.\<close>

record fieldStats =
  s_min :: int
  s_max :: int
  s_avg :: rat

record memorySummary =
  sum_heapUsed :: fieldStats
  sum_heapTotal :: fieldStats
  sum_external :: fieldStats
  growthRate :: rat

definition statsOf :: "int list \<Rightarrow> fieldStats" where
  "statsOf vs =
     \<lparr>s_min = fold min vs (vs ! 0), s_max = fold max vs (vs ! 0),
      s_avg = of_int (foldl (\<lambda>sum val. sum + val) 0 vs) / of_nat (length vs)\<rparr>"

definition analyzeMemoryProfile :: "memorySample list \<Rightarrow> memorySummary option" where
  "analyzeMemoryProfile smps =
     (if length smps = 0 then None
      else
        let heapUseds = map (\<lambda>s. heapUsed (m_usage s)) smps;
            heapTotals = map (\<lambda>s. heapTotal (m_usage s)) smps;
            externals = map (\<lambda>s. external (m_usage s)) smps
        in Some \<lparr>sum_heapUsed = statsOf heapUseds, sum_heapTotal = statsOf heapTotals,
                 sum_external = statsOf externals,
                 growthRate = calculateGrowthRate heapUseds\<rparr>)"

record memoryProfileData =
  md_profileId :: profileId
  md_type :: profileType
  md_duration :: int
  md_samples :: "memorySample list"
  md_summary :: "memorySummary option"

text \<open>
  The output directory: the content of each artifact file, and the paths on which a
  write or a deletion is refused. Deleting a file that does not exist fails as well.
\<close>

datatype artifact =
    CpuArtifact cpuProfile
  | HeapArtifact "string list"
  | MemoryArtifact memoryProfileData

record fileSystem =
  files :: "filepath \<Rightarrow> artifact option"
  denied :: "filepath set"

definition writeFile :: "filepath \<Rightarrow> artifact \<Rightarrow> fileSystem \<Rightarrow> fileSystem option" where
  "writeFile p a fs =
     (if p \<in> denied fs then None else Some (fs\<lparr>files := (files fs)(p := Some a)\<rparr>))"

definition unlink :: "filepath \<Rightarrow> fileSystem \<Rightarrow> fileSystem option" where
  "unlink p fs =
     (if p \<in> denied fs \<or> files fs p = None then None
      else Some (fs\<lparr>files := (files fs)(p := None)\<rparr>))"

text \<open>
  \<open>profileCPU(duration)\<close> up to the point where it returns its promise: the guard, the
  id and the log line. \<open>profileCPU_stopped\<close> is the callback of \<open>Profiler.stop\<close>, which
  settles the promise: \<open>err\<close> and \<open>profile\<close> are its arguments, \<open>byteLength\<close> the length
  of the serialised profile, \<open>tDone\<close> the \<open>new Date()\<close> of the registered entry.
\<close>

definition profileCPU :: "int \<Rightarrow> int \<Rightarrow> profiler \<Rightarrow> (error + profileId) \<times> profiler" where
  "profileCPU now duration s =
     (if session s = None then (Inl NotActive, s)
      else let profileId = (Cpu, now)
           in (Inr profileId, logger (Info_StartCpu profileId duration) s))"

definition profileCPU_stopped ::
  "profileId \<Rightarrow> int \<Rightarrow> error option \<Rightarrow> cpuProfile \<Rightarrow> nat \<Rightarrow> int \<Rightarrow> fileSystem \<Rightarrow> profiler
     \<Rightarrow> (error + filepath) \<times> fileSystem \<times> profiler" where
  "profileCPU_stopped profileId duration err profile byteLength tDone fs s =
     (case err of
        Some e \<Rightarrow> (Inl e, fs, s)
      | None \<Rightarrow>
          let filename = (profileId, ''.cpuprofile'');
              filepath = (outputDir (cfg s), filename)
          in case writeFile filepath (CpuArtifact profile) fs of
               None \<Rightarrow> (Inl PersistenceFailed, fs, s)
             | Some fs1 \<Rightarrow>
                 let s1 = s\<lparr>profiles := AList.update profileId
                            \<lparr>p_type = Cpu, p_filename = filename, p_filepath = filepath,
                             p_timestamp = tDone, p_duration = Some duration,
                             p_size = Some byteLength, p_samples = None\<rparr> (profiles s)\<rparr>;
                     s2 = logger (Success_CpuSaved filename) s1;
                     s3 = emit (ProfileComplete Cpu profileId filepath) s2
                 in (Inr filepath, fs1, s3))"

text \<open>
  \<open>takeHeapSnapshot()\<close> up to the point where it returns its promise: the guard, the id,
  the log line and the creation of the write stream (\<open>streamOk\<close>: the call does not
  throw), which creates the file. \<open>takeHeapSnapshot_done\<close> is the callback of
  \<open>HeapProfiler.takeHeapSnapshot\<close>, after the chunks received were written to the
  stream. Errors of the stream after its creation are left out.
\<close>

definition takeHeapSnapshot ::
  "int \<Rightarrow> bool \<Rightarrow> fileSystem \<Rightarrow> profiler \<Rightarrow> (error + profileId) \<times> fileSystem \<times> profiler" where
  "takeHeapSnapshot now streamOk fs s =
     (if session s = None then (Inl NotActive, fs, s)
      else
        let snapshotId = (Heap, now);
            s1 = logger (Info_TakingHeap snapshotId) s;
            filename = (snapshotId, ''.heapsnapshot'');
            filepath = (outputDir (cfg s), filename)
        in if \<not> streamOk then (Inl PersistenceFailed, fs, s1)
           else (Inr snapshotId,
                 fs\<lparr>files := (files fs)(filepath := Some (HeapArtifact []))\<rparr>, s1))"

definition takeHeapSnapshot_done ::
  "profileId \<Rightarrow> string list \<Rightarrow> error option \<Rightarrow> int \<Rightarrow> fileSystem \<Rightarrow> profiler
     \<Rightarrow> (error + filepath) \<times> fileSystem \<times> profiler" where
  "takeHeapSnapshot_done snapshotId chunks err tDone fs s =
     (let filename = (snapshotId, ''.heapsnapshot'');
          filepath = (outputDir (cfg s), filename);
          total = foldl (\<lambda>sz chunk. sz + length chunk) 0 chunks;
          fs1 = fs\<lparr>files := (files fs)(filepath := Some (HeapArtifact chunks))\<rparr>
      in case err of
           Some e \<Rightarrow> (Inl e, fs1, s)
         | None \<Rightarrow>
             let s1 = s\<lparr>profiles := AList.update snapshotId
                        \<lparr>p_type = Heap, p_filename = filename, p_filepath = filepath,
                         p_timestamp = tDone, p_duration = None,
                         p_size = Some total, p_samples = None\<rparr> (profiles s)\<rparr>;
                 s2 = logger (Success_HeapSaved filename total) s1;
                 s3 = emit (ProfileComplete Heap snapshotId filepath) s2
             in (Inr filepath, fs1, s3))"

text \<open>
  \<open>profileMemory(duration)\<close> up to the point where it returns its promise: there is no
  guard, only the id and the log line.
\<close>

definition profileMemory :: "int \<Rightarrow> int \<Rightarrow> profiler \<Rightarrow> (error + profileId) \<times> profiler" where
  "profileMemory now duration s =
     (let profileId = (Memory, now)
      in (Inr profileId, logger (Info_StartMemory profileId duration) s))"

text \<open>
  The callback of \<open>setInterval(..., 100)\<close>, run until it clears the interval:
  \<open>readings k\<close> is the sample taken at tick \<open>k\<close> (\<open>process.memoryUsage()\<close> with its
  time stamp), \<open>totalSamples\<close> is \<open>duration / interval\<close>, not rounded.
\<close>

function sampleLoop ::
  "rat \<Rightarrow> (nat \<Rightarrow> memorySample) \<Rightarrow> nat \<Rightarrow> memorySample list \<Rightarrow> memorySample list" where
  "sampleLoop totalSamples readings sampleCount smps =
     (let smps1 = smps @ [readings sampleCount];
          sampleCount1 = sampleCount + 1
      in if of_nat sampleCount1 \<ge> totalSamples then smps1
         else sampleLoop totalSamples readings sampleCount1 smps1)"
  by pat_completeness auto
termination
proof (relation "measure (\<lambda>(totalSamples, readings, sampleCount, smps).
                   nat \<lceil>totalSamples\<rceil> - sampleCount)")
  show "wf (measure (\<lambda>(totalSamples :: rat, readings :: nat \<Rightarrow> memorySample,
                       sampleCount :: nat, smps :: memorySample list).
                   nat \<lceil>totalSamples\<rceil> - sampleCount))"
    by simp
next
  fix totalSamples :: rat and readings :: "nat \<Rightarrow> memorySample"
    and sampleCount :: nat and smps smps1 :: "memorySample list" and sampleCount1 :: nat
  assume c1: "sampleCount1 = sampleCount + 1"
    and lt: "\<not> totalSamples \<le> of_nat sampleCount1"
  from lt c1 have "rat_of_int (int sampleCount + 1) < totalSamples"
    by simp
  then have "int sampleCount + 1 < \<lceil>totalSamples\<rceil>"
    by (simp add: less_ceiling_iff)
  then show "((totalSamples, readings, sampleCount1, smps1),
              (totalSamples, readings, sampleCount, smps))
             \<in> measure (\<lambda>(totalSamples, readings, sampleCount, smps).
                   nat \<lceil>totalSamples\<rceil> - sampleCount)"
    using c1 by simp
qed

declare sampleLoop.simps [simp del]

text \<open>
  The rest of \<open>profileMemory\<close>: the sampling, the artifact and its registration. The
  promise resolves with the file path, or with \<open>null\<close> (\<open>None\<close>) when the write fails.
\<close>

definition profileMemory_run ::
  "profileId \<Rightarrow> int \<Rightarrow> (nat \<Rightarrow> memorySample) \<Rightarrow> int \<Rightarrow> fileSystem \<Rightarrow> profiler
     \<Rightarrow> filepath option \<times> fileSystem \<times> profiler" where
  "profileMemory_run profileId duration readings tDone fs s =
     (let interval = 100;
          totalSamples = of_int duration / of_int interval;
          smps = sampleLoop totalSamples readings 0 [];
          filename = (profileId, ''.json'');
          filepath = (outputDir (cfg s), filename);
          profileData = \<lparr>md_profileId = profileId, md_type = Memory, md_duration = duration,
                         md_samples = smps, md_summary = analyzeMemoryProfile smps\<rparr>
      in case writeFile filepath (MemoryArtifact profileData) fs of
           Some fs1 \<Rightarrow>
             let s1 = s\<lparr>profiles := AList.update profileId
                        \<lparr>p_type = Memory, p_filename = filename, p_filepath = filepath,
                         p_timestamp = tDone, p_duration = Some duration,
                         p_size = None, p_samples = Some (length smps)\<rparr> (profiles s)\<rparr>
             in (Some filepath, fs1, logger (Success_MemorySaved filename) s1)
         | None \<Rightarrow> (None, fs, logger Error_SaveMemoryFailed s))"

section \<open>Retention\<close>

text \<open>
  \<open>cleanupProfiles(maxAge)\<close>: the loop over \<open>this.profiles\<close> collects \<open>toDelete\<close> and
  tries each deletion; the entries of \<open>toDelete\<close> are removed from the map afterwards.
\<close>

fun cleanupLoop ::
  "int \<Rightarrow> (profileId \<times> capturedProfile) list \<Rightarrow> profileId list \<Rightarrow> fileSystem \<Rightarrow> profiler
     \<Rightarrow> profileId list \<times> fileSystem \<times> profiler" where
  "cleanupLoop cutoff [] toDelete fs s = (toDelete, fs, s)"
| "cleanupLoop cutoff ((profileId, profile) # rest) toDelete fs s =
     (if p_timestamp profile < cutoff then
        (case unlink (p_filepath profile) fs of
           Some fs1 \<Rightarrow>
             cleanupLoop cutoff rest (toDelete @ [profileId]) fs1
               (logger (Info_Deleted (p_filename profile)) s)
         | None \<Rightarrow>
             cleanupLoop cutoff rest (toDelete @ [profileId]) fs
               (logger (Error_DeleteFailed (p_filename profile)) s))
      else cleanupLoop cutoff rest toDelete fs s)"

definition cleanupProfiles :: "int \<Rightarrow> int \<Rightarrow> fileSystem \<Rightarrow> profiler \<Rightarrow> fileSystem \<times> profiler" where
  "cleanupProfiles now maxAge fs s =
     (let cutoff = now - maxAge
      in case cleanupLoop cutoff (profiles s) [] fs s of
           (toDelete, fs1, s1) \<Rightarrow>
             (fs1, logger (Info_CleanedUp (length toDelete))
                     (s1\<lparr>profiles := fold AList.delete toDelete (profiles s1)\<rparr>)))"

section \<open>Reachable profiler states\<close>

text \<open>
  The states a profiler can be in: the constructor's state, followed by any number of
  calls and callbacks, in any order and with any outcome of the environment.
\<close>

inductive reachable :: "profiler \<Rightarrow> bool" where
  r_new: "reachable (newProfiler c)"
| r_start: "reachable s \<Longrightarrow> reachable (snd (start inspectorOpen openOk connectOk s))"
| r_stop: "reachable s \<Longrightarrow> reachable (stop s)"
| r_entry: "reachable s \<Longrightarrow> reachable (handlePerformanceEntry e t1 t2 t3 s)"
| r_tick: "reachable s \<Longrightarrow> reachable (monitorTick memUsage cpuUse t1 t2 t3 s)"
| r_cpu: "reachable s \<Longrightarrow> reachable (snd (profileCPU now duration s))"
| r_cpu_stopped: "reachable s \<Longrightarrow>
     reachable (snd (snd (profileCPU_stopped pid duration err profile n tDone fs s)))"
| r_heap: "reachable s \<Longrightarrow> reachable (snd (snd (takeHeapSnapshot now streamOk fs s)))"
| r_heap_done: "reachable s \<Longrightarrow>
     reachable (snd (snd (takeHeapSnapshot_done pid chunks err tDone fs s)))"
| r_memory: "reachable s \<Longrightarrow> reachable (snd (profileMemory now duration s))"
| r_memory_run: "reachable s \<Longrightarrow>
     reachable (snd (snd (profileMemory_run pid duration readings tDone fs s)))"
| r_cleanup: "reachable s \<Longrightarrow> reachable (snd (cleanupProfiles now maxAge fs s))"

section \<open>Auxiliary definitions for the statements\<close>

text \<open>The operation a \<open>slow_operation\<close> bottleneck is about.\<close>

definition bottleneckOperation :: "bottleneck \<Rightarrow> string option" where
  "bottleneckOperation b =
     (case b_data b of SlowData operation a n \<Rightarrow> Some operation | _ \<Rightarrow> None)"

text \<open>\<open>- x\<close>\<close>

fun jsNeg :: "number \<Rightarrow> number" where
  "jsNeg (Fin a) = Fin (- a)"
| "jsNeg PosInf = NegInf"
| "jsNeg NegInf = PosInf"
| "jsNeg NaN = NaN"

text \<open>The deltas \<open>xs\<close> added one after the other to the two times of an entry.\<close>

definition addTimes :: "number list \<Rightarrow> nodeEntry \<Rightarrow> nodeEntry" where
  "addTimes xs e =
     e\<lparr>selfTime := foldl jsAdd (selfTime e) xs, totalTime := foldl jsAdd (totalTime e) xs\<rparr>"

text \<open>
  The deltas the code reads for the samples that name the node id \<open>k\<close>, in the order of
  the samples, from index \<open>i\<close> on.
\<close>

fun deltasFrom :: "nat \<Rightarrow> int \<Rightarrow> int list \<Rightarrow> number list \<Rightarrow> number list" where
  "deltasFrom i k [] ds = []"
| "deltasFrom i k (sample # ss) ds =
     (if sample = k then [timeDeltaAt ds i] else []) @ deltasFrom (Suc i) k ss ds"

text \<open>
  The total time of a node in the words of the specification: the deltas at the indices
  whose sample is the node, added up.
\<close>

definition specTotalTime :: "int \<Rightarrow> int list \<Rightarrow> number list \<Rightarrow> number" where
  "specTotalTime k ss ds =
     foldl jsAdd (Fin 0) (map (\<lambda>j. ds ! j) (filter (\<lambda>j. ss ! j = k) [0..<length ss]))"

text \<open>A stopped profiler holds no session.\<close>

definition sessionClosedWhenStopped :: "profiler \<Rightarrow> bool" where
  "sessionClosedWhenStopped s = (isRunning s \<or> session s = None)"

section \<open>Example inputs\<close>

definition exampleConfig :: config where
  "exampleConfig =
     \<lparr>outputDir = ''./profiles'', autoProfile = False, profileDuration = 30000,
      heapSnapshotInterval = 300000,
      thresholds = \<lparr>t_cpuUsage = 80, t_memoryUsage = 536870912, gcFrequency = 2\<rparr>\<rparr>"

definition exampleUsage :: "int \<Rightarrow> memoryUsage" where
  "exampleUsage h =
     \<lparr>rss = 50000000, heapTotal = 40000000, heapUsed = h, external = 1000, arrayBuffers = 10\<rparr>"

definition exampleCpu :: cpuUsage where
  "exampleCpu = \<lparr>user = 1200, system = 300\<rparr>"

definition exampleReadings :: "nat \<Rightarrow> memorySample" where
  "exampleReadings k =
     \<lparr>m_timestamp = 1000 + 100 * int k, m_usage = exampleUsage (20000000 + 1000 * int k)\<rparr>"

definition emptyFs :: fileSystem where
  "emptyFs = \<lparr>files = (\<lambda>p. None), denied = {}\<rparr>"

definition readOnlyFs :: fileSystem where
  "readOnlyFs =
     \<lparr>files = (\<lambda>p. None), denied = {(''./profiles'', ((Memory, 1000), ''.json''))}\<rparr>"

text \<open>A started profiler after one sampler tick at time 5000.\<close>

definition runningProfiler :: profiler where
  "runningProfiler =
     collectSystemMetrics (exampleUsage 20000000) exampleCpu 5000 5000 5000
       (snd (start False True True (newProfiler exampleConfig)))"

definition stoppedProfiler :: profiler where
  "stoppedProfiler = stop (snd (start False True True (newProfiler exampleConfig)))"

definition gcAt :: "int \<Rightarrow> gcEvent" where
  "gcAt t = \<lparr>gc_timestamp = t, gc_duration = 3, gc_type = GcKind 1, gc_flags = 0\<rparr>"






definition sampleAt :: "int \<Rightarrow> int \<Rightarrow> memorySample" where
  "sampleAt t h = \<lparr>m_timestamp = t, m_usage = exampleUsage h\<rparr>"

text \<open>Three samples whose heap grows by 3 MiB per step, and three of constant heap.\<close>

definition leakingProfiler :: profiler where
  "leakingProfiler =
     (newProfiler exampleConfig)
       \<lparr>metrics := \<lparr>cpu = [],
          memory = [sampleAt 5000 10000000, sampleAt 10000 13145728, sampleAt 15000 16291456],
          gc = [], operations = []\<rparr>\<rparr>"

definition steadyProfiler :: profiler where
  "steadyProfiler =
     (newProfiler exampleConfig)
       \<lparr>metrics := \<lparr>cpu = [],
          memory = [sampleAt 5000 10000000, sampleAt 10000 10000000, sampleAt 15000 10000000],
          gc = [], operations = []\<rparr>\<rparr>"

definition nodeA :: profileNode where
  "nodeA = \<lparr>n_id = 1, n_callFrame = \<lparr>functionName = ''A'', url = ''app.js'',
                                      lineNumber = 10, columnNumber = 2\<rparr>\<rparr>"

definition nodeB :: profileNode where
  "nodeB = \<lparr>n_id = 2, n_callFrame = \<lparr>functionName = [], url = ''app.js'',
                                      lineNumber = 20, columnNumber = 4\<rparr>\<rparr>"

text \<open>A profile registered at time 31000, whose file is not in the output directory.\<close>

definition oldProfile :: capturedProfile where
  "oldProfile =
     \<lparr>p_type = Cpu, p_filename = ((Cpu, 1000), ''.cpuprofile''),
      p_filepath = (''./profiles'', ((Cpu, 1000), ''.cpuprofile'')),
      p_timestamp = 31000, p_duration = Some 30000, p_size = Some 2048, p_samples = None\<rparr>"

definition staleProfiler :: profiler where
  "staleProfiler = (newProfiler exampleConfig)\<lparr>profiles := [((Cpu, 1000), oldProfile)]\<rparr>"

text \<open>Buffers holding one sample and one GC event from time 1000.\<close>

definition agedProfiler :: profiler where
  "agedProfiler =
     (newProfiler exampleConfig)
       \<lparr>metrics := \<lparr>cpu = [\<lparr>c_timestamp = 1000, c_usage = exampleCpu\<rparr>],
          memory = [sampleAt 1000 10000000], gc = [gcAt 1000], operations = []\<rparr>\<rparr>"




text \<open>
  Three stored profiles, of which the first two were registered more than a day before
  time 100000000; the output directory holds the files of the first and the third.
\<close>

definition savedProfile :: "int \<Rightarrow> int \<Rightarrow> capturedProfile" where
  "savedProfile t0 t =
     \<lparr>p_type = Cpu, p_filename = ((Cpu, t0), ''.cpuprofile''),
      p_filepath = (''./profiles'', ((Cpu, t0), ''.cpuprofile'')),
      p_timestamp = t, p_duration = Some 30000, p_size = Some 2048, p_samples = None\<rparr>"

definition archive :: profiler where
  "archive =
     (newProfiler exampleConfig)
       \<lparr>profiles := [((Cpu, 1000), savedProfile 1000 31000),
                     ((Cpu, 2000), savedProfile 2000 32000),
                     ((Cpu, 90000000), savedProfile 90000000 90030000)]\<rparr>"

definition storedArtifact :: artifact where
  "storedArtifact =
     CpuArtifact \<lparr>nodes = [nodeA], startTime = 0, endTime = 30000, samples = [1],
                   timeDeltas = [Fin 30000]\<rparr>"

definition archiveFs :: fileSystem where
  "archiveFs =
     \<lparr>files = (\<lambda>p. if p = p_filepath (savedProfile 1000 31000)
                       \<or> p = p_filepath (savedProfile 90000000 90030000)
                    then Some storedArtifact else None),
      denied = {}\<rparr>"

section \<open>Session lifecycle: stopping\<close>

text \<open>
  Claim C9. For every profiler state, \<open>stop()\<close> leaves the metric buffers (memory
  samples, CPU samples, GC events, operation records), the stored profiles, the marks
  and the configuration as they are. On a running profiler it clears \<open>isRunning\<close>,
  closes the session, writes one log line and emits \<open>stopped\<close>, and nothing else; on a
  profiler that is not running it changes nothing.
\<close>

theorem stop_frame:
  "metrics (stop s) = metrics s \<and> profiles (stop s) = profiles s
   \<and> performanceMarks (stop s) = performanceMarks s \<and> cfg (stop s) = cfg s
   \<and> (isRunning s \<longrightarrow>
        stop s = s\<lparr>isRunning := False, session := None,
                   emitted := emitted s @ [Stopped], logged := logged s @ [Info_Stopping]\<rparr>)
   \<and> (\<not> isRunning s \<longrightarrow> stop s = s)"
  by (simp add: stop_def emit_def logger_def Let_def)

theorem stop_frame_witness:
  "isRunning runningProfiler
   \<and> memory (metrics runningProfiler) \<noteq> []
   \<and> metrics (stop runningProfiler) = metrics runningProfiler
   \<and> profiles (stop runningProfiler) = profiles runningProfiler
   \<and> session (stop runningProfiler) = None
   \<and> emitted (stop runningProfiler) = [Started, Stopped]
   \<and> \<not> isRunning (stop runningProfiler)
   \<and> stop (stop runningProfiler) = stop runningProfiler"
  using stop_frame [of runningProfiler] stop_frame [of "stop runningProfiler"]
  by (simp add: runningProfiler_def collectSystemMetrics_def start_def newProfiler_def
        exampleConfig_def exampleUsage_def exampleCpu_def emit_def logger_def Let_def)

section \<open>Retention window of the metric buffers\<close>

text \<open>
  Claim C8. After a sampler append (\<open>_collectSystemMetrics\<close>) the memory and CPU buffers,
  and after a GC append (\<open>_handleGCEntry\<close>) the GC buffer, hold only records whose time
  stamp is strictly greater than the clock reading of the eviction minus one hour
  (3600000 ms), whatever the buffers held before; so this holds after every append of
  any sequence of appends.
\<close>

theorem append_evicts_old:
  "(\<forall>m \<in> set (memory (metrics (collectSystemMetrics memUsage cpuUse tMem tCpu tEvict s))).
       m_timestamp m > tEvict - 3600000)
   \<and> (\<forall>c \<in> set (cpu (metrics (collectSystemMetrics memUsage cpuUse tMem tCpu tEvict s))).
       c_timestamp c > tEvict - 3600000)
   \<and> (\<forall>g \<in> set (gc (metrics (handleGCEntry duration detail tPush tEvict tCheck s))).
       gc_timestamp g > tEvict - 3600000)"
  by (simp add: collectSystemMetrics_def handleGCEntry_def emit_def Let_def)

theorem append_evicts_old_witness:
  "memory (metrics agedProfiler) = [sampleAt 1000 10000000]
   \<and> memory (metrics (collectSystemMetrics (exampleUsage 20000000) exampleCpu
                        3700000 3700000 3700000 agedProfiler))
       = [sampleAt 3700000 20000000]
   \<and> list_all (\<lambda>m. m_timestamp m > 3700000 - 3600000)
        (memory (metrics (collectSystemMetrics (exampleUsage 20000000) exampleCpu
                        3700000 3700000 3700000 agedProfiler)))
   \<and> gc (metrics agedProfiler) = [gcAt 1000]
   \<and> gc (metrics (handleGCEntry 3 None 3700000 3700000 3700000 agedProfiler))
       = [\<lparr>gc_timestamp = 3700000, gc_duration = 3, gc_type = GcUnknown, gc_flags = 0\<rparr>]
   \<and> list_all (\<lambda>g. gc_timestamp g > 3700000 - 3600000)
        (gc (metrics (handleGCEntry 3 None 3700000 3700000 3700000 agedProfiler)))"
  using append_evicts_old [of "exampleUsage 20000000" exampleCpu 3700000 3700000 3700000
          agedProfiler 3 None 3700000 3700000]
  by (simp add: agedProfiler_def newProfiler_def exampleConfig_def collectSystemMetrics_def
        handleGCEntry_def gcKindOf_def gcFlagsOf_def sampleAt_def gcAt_def exampleUsage_def
        emit_def Let_def)

section \<open>Double arithmetic\<close>

text \<open>
  Facts about the rounding \<open>fl\<close>: the exponent it picks, that every integer of absolute
  value at most \<open>2^53\<close> is a double, so that sums of such integers are exact, and that
  rounding a quotient does not cross the threshold 1000 of the detector.
\<close>

lemma exponentOf_bounds:
  assumes "0 < a"
  shows "2 powi (exponentOf a) \<le> a \<and> a < 2 powi (exponentOf a + 1)"
proof (cases "1 \<le> a")
  case True
  define n where "n = nat \<lfloor>a\<rfloor>"
  define L where "L = floorlog 2 n"
  from True have "1 \<le> \<lfloor>a\<rfloor>" by (simp add: le_floor_iff)
  then have n1: "1 \<le> n" unfolding n_def by linarith
  then have b: "2 ^ (L - 1) \<le> n" "n < 2 ^ L"
    using floorlog_bounds [of n 2] by (simp_all add: L_def)
  have L1: "1 \<le> L" using n1 by (simp add: L_def floorlog_def)
  have e: "exponentOf a = int L - 1" using True by (simp add: exponentOf_def n_def L_def)
  have na: "rat_of_nat n \<le> a" using True by (simp add: n_def)
  have an: "a < rat_of_nat n + 1" using True by (simp add: n_def) linarith
  have "(2::rat) ^ (L - 1) = rat_of_nat (2 ^ (L - 1))" by simp
  also have "\<dots> \<le> rat_of_nat n" using b(1) by (rule of_nat_mono)
  also have "\<dots> \<le> a" by (rule na)
  finally have lo: "(2::rat) ^ (L - 1) \<le> a" .
  have "n + 1 \<le> 2 ^ L" using b(2) by simp
  then have "rat_of_nat (n + 1) \<le> rat_of_nat (2 ^ L)" by (rule of_nat_mono)
  also have "\<dots> = (2::rat) ^ L" by simp
  finally have "rat_of_nat n + 1 \<le> (2::rat) ^ L" by simp
  with an have hi: "a < (2::rat) ^ L" by linarith
  have p1: "(2::rat) powi (int L - 1) = 2 ^ (L - 1)"
    using L1 by (metis of_nat_1 of_nat_diff power_int_of_nat)
  have p2: "(2::rat) powi (int L - 1 + 1) = 2 ^ L" by simp
  show ?thesis unfolding e p1 p2 using lo hi by simp
next
  case False
  define y where "y = 1 / a"
  define c where "c = \<lceil>y\<rceil>"
  define n where "n = nat (c - 1)"
  define L where "L = floorlog 2 n"
  from False assms have y1: "1 < y" by (simp add: y_def)
  then have c2: "2 \<le> c" unfolding c_def by (simp add: le_ceiling_iff)
  then have n1: "1 \<le> n" by (simp add: n_def)
  then have b: "2 ^ (L - 1) \<le> n" "n < 2 ^ L"
    using floorlog_bounds [of n 2] by (simp_all add: L_def)
  have L1: "1 \<le> L" using n1 by (simp add: L_def floorlog_def)
  have e: "exponentOf a = - int L" using False by (simp add: exponentOf_def n_def L_def c_def y_def)
  have ny: "rat_of_nat n < y"
  proof -
    have "rat_of_int (c - 1) < y" unfolding c_def by linarith
    moreover have "rat_of_nat n = rat_of_int (c - 1)" using c2 by (simp add: n_def)
    ultimately show ?thesis by simp
  qed
  have yn: "y \<le> rat_of_nat n + 1"
  proof -
    have "y \<le> rat_of_int c" unfolding c_def by linarith
    moreover have "rat_of_nat n + 1 = rat_of_int c" using c2 by (simp add: n_def)
    ultimately show ?thesis by simp
  qed
  have "(2::rat) ^ (L - 1) = rat_of_nat (2 ^ (L - 1))" by simp
  also have "\<dots> \<le> rat_of_nat n" using b(1) by (rule of_nat_mono)
  also have "\<dots> < y" by (rule ny)
  finally have lo: "(2::rat) ^ (L - 1) < y" .
  have "n + 1 \<le> 2 ^ L" using b(2) by simp
  then have "rat_of_nat (n + 1) \<le> rat_of_nat (2 ^ L)" by (rule of_nat_mono)
  also have "\<dots> = (2::rat) ^ L" by simp
  finally have "rat_of_nat n + 1 \<le> (2::rat) ^ L" by simp
  with yn have hi: "y \<le> (2::rat) ^ L" by linarith
  have a_eq: "a = 1 / y" by (simp add: y_def)
  have ypos: "0 < y" using y1 by simp
  have p1: "(2::rat) powi (- int L) = 1 / 2 ^ L"
    by (simp add: power_int_minus_divide)
  have p2: "(2::rat) powi (- int L + 1) = 1 / 2 ^ (L - 1)"
  proof -
    have "- int L + 1 = - int (L - 1)" using L1 by simp
    then show ?thesis by (simp only: power_int_minus_divide power_int_of_nat)
  qed
  have "1 / 2 ^ L \<le> 1 / y" using hi ypos by (simp add: frac_le)
  then have l: "2 powi (exponentOf a) \<le> a" by (simp only: e p1 a_eq [symmetric])
  have "1 / y < 1 / 2 ^ (L - 1)" using lo by (simp add: frac_less2)
  then have u: "a < 2 powi (exponentOf a + 1)" by (simp only: e p2 a_eq [symmetric])
  from l u show ?thesis ..
qed

lemma exponentOf_unique:
  assumes "0 < a" and "2 powi e \<le> a" and "a < 2 powi (e + 1)"
  shows "exponentOf a = e"
proof -
  note b = exponentOf_bounds [OF assms(1)]
  have "(2::rat) powi e < 2 powi (exponentOf a + 1)" using assms(2) b by linarith
  then have 1: "e < exponentOf a + 1"
    using power_int_increasing [of "exponentOf a + 1" e "2::rat"] by (cases "e < exponentOf a + 1") auto
  have "(2::rat) powi (exponentOf a) < 2 powi (e + 1)" using assms(3) b by linarith
  then have 2: "exponentOf a < e + 1"
    using power_int_increasing [of "e + 1" "exponentOf a" "2::rat"] by (cases "exponentOf a < e + 1") auto
  from 1 2 show ?thesis by simp
qed

lemma roundHalfEven_of_int: "roundHalfEven (of_int z) = z"
  by (simp add: roundHalfEven_def)

lemma fl_positive:
  assumes "0 < x" and "2 powi e \<le> x" and "x < 2 powi (e + 1)" and "- 1022 \<le> e"
    and "roundHalfEven (x / 2 powi (e - 52)) = r"
    and "of_int r * 2 powi (e - 52) < overflowBound"
  shows "fl x = Fin (of_int r * 2 powi (e - 52))"
proof -
  have "exponentOf x = e" using assms(1-3) by (rule exponentOf_unique)
  moreover have "max e (- 1022) = e" using assms(4) by simp
  moreover have "\<bar>x\<bar> = x" using assms(1) by simp
  ultimately show ?thesis
    using assms(1,5,6) by (simp add: fl_def Let_def)
qed

lemma small_below_overflow: "a \<le> 2 ^ 53 \<Longrightarrow> a < overflowBound"
  by (simp add: overflowBound_def)

lemma fl_minus: "fl (- x) = jsNeg (fl x)"
  by (cases "x = 0"; cases "0 < x") (simp_all add: fl_def Let_def)

lemma fl_of_int:
  assumes "\<bar>k\<bar> \<le> 2 ^ 53"
  shows "fl (of_int k) = Fin (of_int k)"
proof (cases "k = 0")
  case True
  then show ?thesis by (simp add: fl_def)
next
  case False
  define a :: rat where "a = of_int \<bar>k\<bar>"
  define E where "E = exponentOf a"
  have a1: "1 \<le> a" using False by (simp add: a_def)
  have "rat_of_int \<bar>k\<bar> \<le> rat_of_int (2 ^ 53)" using assms by (rule of_int_le_iff [THEN iffD2])
  then have a53: "a \<le> 2 ^ 53" by (simp add: a_def)
  have b: "2 powi E \<le> a" "a < 2 powi (E + 1)"
    using exponentOf_bounds [of a] a1 by (simp_all add: E_def)
  have E0: "0 \<le> E"
  proof (rule ccontr)
    assume "\<not> 0 \<le> E"
    then have "E + 1 \<le> 0" by simp
    then have "(2::rat) powi (E + 1) \<le> 2 powi 0" by (intro power_int_increasing) simp_all
    with b(2) a1 show False by simp
  qed
  have E53: "E \<le> 53"
  proof (rule ccontr)
    assume "\<not> E \<le> 53"
    then have "54 \<le> E" by simp
    then have "(2::rat) powi 54 \<le> 2 powi E" by (intro power_int_increasing) simp_all
    with b(1) a53 show False by simp
  qed
  have r: "of_int (roundHalfEven (a / 2 powi (E - 52))) * 2 powi (E - 52) = a"
  proof (cases "E \<le> 52")
    case True
    define m where "m = nat (52 - E)"
    have "E - 52 = - int m" using True by (simp add: m_def)
    then have q: "(2::rat) powi (E - 52) = 1 / 2 ^ m"
      by (simp only: power_int_minus_divide power_int_of_nat)
    have "a / (1 / 2 ^ m) = rat_of_int (\<bar>k\<bar> * 2 ^ m)" by (simp add: a_def)
    then have "roundHalfEven (a / (1 / 2 ^ m)) = \<bar>k\<bar> * 2 ^ m"
      by (simp only: roundHalfEven_of_int)
    then show ?thesis unfolding q by (simp add: a_def)
  next
    case False
    with E53 have E: "E = 53" by simp
    from b(1) a53 have a: "a = 2 ^ 53" unfolding E by simp
    have "a / 2 = rat_of_int (2 ^ 52)" unfolding a by simp
    then have "roundHalfEven (a / 2) = 2 ^ 52" by (simp only: roundHalfEven_of_int)
    then show ?thesis unfolding E by (simp add: a)
  qed
  have small: "a < overflowBound" using a53 by (rule small_below_overflow)
  have pos: "0 < a" using a1 by simp
  have E1022: "- 1022 \<le> E" using E0 by simp
  have "of_int (roundHalfEven (a / 2 powi (E - 52))) * 2 powi (E - 52) < overflowBound"
    unfolding r by (rule small)
  with pos b E1022 have "fl a = Fin (of_int (roundHalfEven (a / 2 powi (E - 52))) * 2 powi (E - 52))"
    by (intro fl_positive) simp_all
  then have fa: "fl a = Fin a" by (simp only: r)
  show ?thesis
  proof (cases "0 < k")
    case True
    then have "a = of_int k" by (simp add: a_def)
    with fa show ?thesis by simp
  next
    case neg: False
    with False have "k < 0" by simp
    then have "of_int k = - a" by (simp add: a_def)
    with fa pos show ?thesis by (simp add: fl_minus)
  qed
qed


lemma floor_rat_numeral:
  "\<lfloor>numeral a / numeral b :: rat\<rfloor> = numeral a div numeral b"
  using floor_divide_of_int_eq [of "numeral a" "numeral b", where ?'a = rat] by simp

lemma fl_numeral: "numeral n \<le> (2 ^ 53 :: int) \<Longrightarrow> fl (numeral n) = Fin (numeral n)"
  using fl_of_int [of "numeral n"] by simp

lemma fl_one: "fl 1 = Fin 1"
  using fl_of_int [of 1] by simp


lemma fl_above_2_53: "fl (2 ^ 53 + 1) = Fin (2 ^ 53)"
proof -
  have "fl (2 ^ 53 + 1) = Fin (of_int (2 ^ 52) * 2 powi (53 - 52))"
    by (rule fl_positive)
       (simp_all add: roundHalfEven_def Let_def overflowBound_def floor_rat_numeral)
  then show ?thesis by simp
qed


lemma fl_zero: "fl 0 = Fin 0"
  by (simp add: fl_def)








section \<open>Bottleneck detector\<close>

lemma gcCheck_type: "b \<in> set (gcCheck now s) \<Longrightarrow> b_type b = high_gc_frequency"
  by (auto simp: gcCheck_def Let_def split: if_splits)

lemma memoryCheck_type: "b \<in> set (memoryCheck s) \<Longrightarrow> b_type b = memory_leak"
  by (auto simp: memoryCheck_def Let_def split: if_splits)

lemma operationCheck_type:
  "b \<in> set (operationCheck now (k, ms)) \<Longrightarrow>
     b_type b = slow_operation \<and> bottleneckOperation b = Some k"
  by (auto simp: operationCheck_def bottleneckOperation_def Let_def
           split: if_splits option.splits)

lemma operations_type:
  "b \<in> set (concat (map (operationCheck now) ops)) \<Longrightarrow> b_type b = slow_operation"
  using operationCheck_type by fastforce

lemma filter_none: "(\<And>b. b \<in> set xs \<Longrightarrow> \<not> P b) \<Longrightarrow> filter P xs = []"
  by (simp add: filter_empty_conv)

lemma filter_all: "(\<And>b. b \<in> set xs \<Longrightarrow> P b) \<Longrightarrow> filter P xs = xs"
  by (simp add: filter_id_conv)

lemma leak_filter:
  "filter (\<lambda>b. b_type b = memory_leak) (detectBottlenecks now s) = memoryCheck s"
proof -
  have 1: "filter (\<lambda>b. b_type b = memory_leak) (gcCheck now s) = []"
    by (rule filter_none) (auto dest: gcCheck_type)
  have 2: "filter (\<lambda>b. b_type b = memory_leak) (memoryCheck s) = memoryCheck s"
    by (rule filter_all) (auto dest: memoryCheck_type)
  have 3: "filter (\<lambda>b. b_type b = memory_leak)
             (concat (map (operationCheck now) (operations (metrics s)))) = []"
  proof (rule filter_none)
    fix b assume "b \<in> set (concat (map (operationCheck now) (operations (metrics s))))"
    then have "b_type b = slow_operation" by (rule operations_type)
    then show "\<not> b_type b = memory_leak" by simp
  qed
  show ?thesis
    unfolding detectBottlenecks_def filter_append 1 2 3 by simp
qed


lemma growthRate_first_last:
  assumes "2 \<le> length xs"
  shows "calculateGrowthRate (map f xs) = of_int (f (last xs) - f (hd xs)) / of_nat (length xs)"
proof -
  from assms have ne: "xs \<noteq> []" by auto
  have "map f xs ! 0 = f (hd xs)"
    using ne by (simp add: hd_conv_nth)
  moreover have "map f xs ! (length xs - 1) = f (last xs)"
    using ne by (simp add: last_conv_nth)
  ultimately show ?thesis
    using assms by (simp add: calculateGrowthRate_def Let_def)
qed

text \<open>
  Claim C4. The memory-growth check looks at the last 10 memory samples (all of them
  when there are fewer). With \<open>sampleCount\<close> the number of samples taken and
  \<open>growth = (last.heapUsed - first.heapUsed) / sampleCount\<close>, the detector reports a
  \<open>memory_leak\<close> bottleneck, of severity \<open>critical\<close> and carrying the growth rate, exactly
  when there are at least 2 samples and the growth exceeds 1048576 bytes per sample; it
  never reports more than one.
\<close>

theorem memory_growth_check:
  "filter (\<lambda>b. b_type b = memory_leak) (detectBottlenecks now s) =
     (let recent = drop (length (memory (metrics s)) - 10) (memory (metrics s));
          sampleCount = length recent;
          growth = of_int (heapUsed (m_usage (last recent)) - heapUsed (m_usage (hd recent)))
                     / of_nat sampleCount
      in if 2 \<le> sampleCount \<and> growth > 1048576
         then [\<lparr>b_type = memory_leak, b_severity = critical,
                b_message = LeakMessage growth, b_data = LeakData growth\<rparr>]
         else [])"
proof -
  define recent where "recent = drop (length (memory (metrics s)) - 10) (memory (metrics s))"
  show ?thesis
    unfolding leak_filter memoryCheck_def sliceLast_def recent_def [symmetric]
    by (cases "2 \<le> length recent") (simp_all add: growthRate_first_last Let_def)
qed

theorem memory_growth_check_witness:
  "filter (\<lambda>b. b_type b = memory_leak) (detectBottlenecks 20000 leakingProfiler) =
     [\<lparr>b_type = memory_leak, b_severity = critical,
       b_message = LeakMessage 2097152, b_data = LeakData 2097152\<rparr>]
   \<and> filter (\<lambda>b. b_type b = memory_leak) (detectBottlenecks 20000 steadyProfiler) = []"
  using memory_growth_check [of 20000 leakingProfiler]
    memory_growth_check [of 20000 steadyProfiler]
  by (simp add: leakingProfiler_def steadyProfiler_def newProfiler_def sampleAt_def
        exampleUsage_def Let_def)
















section \<open>Flame graph builder\<close>

lemma update_absent: "k \<notin> fst ` set m \<Longrightarrow> AList.update k v m = m @ [(k, v)]"
  by (induction m) auto

lemma update_present:
  "distinct (map fst m) \<Longrightarrow> map_of m k = Some e \<Longrightarrow>
     AList.update k (g e) m = map (\<lambda>kv. if fst kv = k then (fst kv, g (snd kv)) else kv) m"
proof (induction m)
  case Nil
  then show ?case by simp
next
  case (Cons p m)
  show ?case
  proof (cases "fst p = k")
    case True
    with Cons.prems have "snd p = e" by (cases p) simp
    moreover from True Cons.prems have "k \<notin> fst ` set m" by auto
    then have "map (\<lambda>kv. if fst kv = k then (fst kv, g (snd kv)) else kv) m = m"
      by (induction m) auto
    ultimately show ?thesis using True by (cases p) simp
  next
    case False
    with Cons show ?thesis by (cases p) auto
  qed
qed

lemma map_of_None_notin: "map_of m k = None \<Longrightarrow> k \<notin> fst ` set m"
  by (simp add: map_of_eq_None_iff)

lemma addTimes_Nil: "addTimes [] e = e"
  by (simp add: addTimes_def)

lemma addTimes_Cons: "addTimes xs (addTimes [x] e) = addTimes (x # xs) e"
  by (simp add: addTimes_def)

lemma addSample_eq:
  "addSample i sample ds m =
     (case map_of m sample of
        None \<Rightarrow> m
      | Some node \<Rightarrow> AList.update sample (addTimes [timeDeltaAt ds i] node) m)"
  by (simp add: addSample_def addTimes_def Let_def split: option.split)

lemma addSamples_closed:
  "distinct (map fst m) \<Longrightarrow>
     addSamples i ss ds m = map (\<lambda>kv. (fst kv, addTimes (deltasFrom i (fst kv) ss ds) (snd kv))) m"
proof (induction ss arbitrary: i m)
  case Nil
  then show ?case by (simp add: addTimes_Nil)
next
  case (Cons sample ss)
  show ?case
  proof (cases "map_of m sample")
    case None
    then have "sample \<notin> fst ` set m" by (rule map_of_None_notin)
    then have "\<And>kv. kv \<in> set m \<Longrightarrow> fst kv \<noteq> sample" by auto
    then have "map (\<lambda>kv. (fst kv, addTimes (deltasFrom i (fst kv) (sample # ss) ds) (snd kv))) m
             = map (\<lambda>kv. (fst kv, addTimes (deltasFrom (Suc i) (fst kv) ss ds) (snd kv))) m"
      by (intro map_cong) auto
    with None Cons.IH [OF Cons.prems] show ?thesis by (simp add: addSample_eq)
  next
    case (Some node)
    let ?d = "timeDeltaAt ds i"
    let ?m1 = "AList.update sample (addTimes [?d] node) m"
    have m1: "?m1 = map (\<lambda>kv. if fst kv = sample then (fst kv, addTimes [?d] (snd kv)) else kv) m"
      using update_present [OF Cons.prems Some, of "addTimes [?d]"] .
    have "map fst ?m1 = map fst m"
      unfolding m1 by (induction m) auto
    with Cons.prems have d1: "distinct (map fst ?m1)" by simp
    have "addSamples i (sample # ss) ds m = addSamples (Suc i) ss ds ?m1"
      using Some by (simp add: addSample_eq)
    also have "\<dots> = map (\<lambda>kv. (fst kv, addTimes (deltasFrom (Suc i) (fst kv) ss ds) (snd kv))) ?m1"
      by (rule Cons.IH [OF d1])
    also have "\<dots> = map (\<lambda>kv. (fst kv, addTimes (deltasFrom i (fst kv) (sample # ss) ds) (snd kv))) m"
      unfolding m1 by (auto simp: addTimes_Cons)
    finally show ?thesis .
  qed
qed

lemma addSamples_snoc:
  "addSamples i (xs @ [x]) ds m = addSample (i + length xs) x ds (addSamples i xs ds m)"
  by (induction xs arbitrary: i m) simp_all

lemma buildNodeMap_distinct:
  "distinct (map fst m) \<Longrightarrow> distinct (map fst (buildNodeMap i ns m))"
  by (induction ns arbitrary: i m) (simp_all add: distinct_update)

lemma update_set: "kv \<in> set (AList.update k v m) \<Longrightarrow> kv = (k, v) \<or> kv \<in> set m"
  by (induction m) (auto split: if_splits)

lemma buildNodeMap_zero:
  "(\<And>kv. kv \<in> set m \<Longrightarrow> selfTime (snd kv) = Fin 0 \<and> totalTime (snd kv) = Fin 0) \<Longrightarrow>
     kv \<in> set (buildNodeMap i ns m) \<Longrightarrow>
     selfTime (snd kv) = Fin 0 \<and> totalTime (snd kv) = Fin 0"
proof (induction ns arbitrary: i m)
  case Nil
  then show ?case by simp
next
  case (Cons node ns)
  let ?m1 = "AList.update (n_id node)
               \<lparr>e_node = node, e_index = i, e_children = [],
                selfTime = Fin 0, totalTime = Fin 0\<rparr> m"
  have "\<And>kv. kv \<in> set ?m1 \<Longrightarrow> selfTime (snd kv) = Fin 0 \<and> totalTime (snd kv) = Fin 0"
    using Cons.prems(1) update_set by fastforce
  moreover have "kv \<in> set (buildNodeMap (Suc i) ns ?m1)"
    using Cons.prems(2) by simp
  ultimately show ?case by (rule Cons.IH)
qed



lemma filter_shift:
  "filter (\<lambda>j. (x # ss) ! j = k) (map Suc js) = map Suc (filter (\<lambda>j. ss ! j = k) js)"
  by (induction js) auto

lemma deltasFrom_nth:
  "deltasFrom i k ss ds =
     map (\<lambda>j. timeDeltaAt ds (i + j)) (filter (\<lambda>j. ss ! j = k) [0..<length ss])"
proof (induction ss arbitrary: i)
  case Nil
  then show ?case by simp
next
  case (Cons sample ss)
  have up: "[0..<length (sample # ss)] = 0 # map Suc [0..<length ss]"
    by (simp add: upt_conv_Cons map_Suc_upt del: upt_Suc)
  show ?case
    unfolding up by (simp add: filter_shift Cons.IH comp_def del: upt_Suc)
qed

lemma truthy_iff: "truthy x \<longleftrightarrow> x \<noteq> Fin 0 \<and> x \<noteq> NaN"
  by (cases x) simp_all

lemma nodeMap_entries:
  "addSamples 0 ss ds (buildNodeMap 0 ns []) =
     map (\<lambda>kv. (fst kv, addTimes (deltasFrom 0 (fst kv) ss ds) (snd kv)))
       (buildNodeMap 0 ns [])"
  by (rule addSamples_closed) (simp add: buildNodeMap_distinct)





lemma step_at:
  assumes "i < length ss"
  shows "addSamples 0 (take (Suc i) ss) ds m = addSample i (ss ! i) ds (addSamples 0 (take i ss) ds m)"
proof -
  have "take (Suc i) ss = take i ss @ [ss ! i]"
    using assms by (rule take_Suc_conv_app_nth)
  then show ?thesis
    using assms by (simp add: addSamples_snoc)
qed

lemma fl_2_53: "fl (2 ^ 53) = Fin (2 ^ 53)"
  using fl_of_int [of "2 ^ 53"] by simp

text \<open>
  The accumulation rounds as the code does: one node sampled twice, with the deltas
  \<open>2^53\<close> and 1, has the value \<open>2^53\<close>.
\<close>

lemma addSamples_rounds:
  "map f_value (processProfileNodes [nodeA] [1, 1] [Fin (2 ^ 53), Fin 1]) = [Fin (2 ^ 53)]"
proof -
  have "jsAdd (jsAdd (Fin 0) (Fin (2 ^ 53))) (Fin 1) = Fin (2 ^ 53)"
    by (simp only: jsAdd.simps add_0 fl_2_53 fl_above_2_53)
  moreover have "map f_value (processProfileNodes [nodeA] [1, 1] [Fin (2 ^ 53), Fin 1])
        = [jsAdd (jsAdd (Fin 0) (Fin (2 ^ 53))) (Fin 1)]"
    by (simp add: processProfileNodes_def flameNodeOf_def addSample_def timeDeltaAt_def
          nodeA_def Let_def del: jsAdd.simps)
  ultimately show ?thesis by simp
qed





text \<open>
  Claim C7, as amended. Processing the pair at index \<open>i\<close>, when the delta at \<open>i\<close> is a
  number other than 0 (and not \<open>NaN\<close>), adds that delta to the self time and to the total
  time of the node the sample references (an addition of doubles), and changes nothing
  when no node has that id. The flame-graph nodes are the projections of the node map
  after the last pair. A node all of whose samples have such a delta ends with the
  running sum, from 0 and in index order, of the deltas at its sample indices, as self
  time and as total time. Two nodes A and B with the samples A,B,A,B and the time deltas
  [10,20,30,40] have the values 40 and 60.
\<close>

theorem flame_graph_totals:
  "(let nodeMap = buildNodeMap 0 ns [];
        entries = addSamples 0 ss ds nodeMap;
        before = addSamples 0 (take i ss) ds nodeMap;
        after = addSamples 0 (take (Suc i) ss) ds nodeMap
    in (i < length ss \<and> i < length ds \<and> ds ! i \<noteq> Fin 0 \<and> ds ! i \<noteq> NaN \<longrightarrow>
          after = (case map_of before (ss ! i) of
                     None \<Rightarrow> before
                   | Some node \<Rightarrow>
                       AList.update (ss ! i)
                         (node\<lparr>selfTime := jsAdd (selfTime node) (ds ! i),
                               totalTime := jsAdd (totalTime node) (ds ! i)\<rparr>) before))
       \<and> addSamples 0 (take (length ss) ss) ds nodeMap = entries
       \<and> processProfileNodes ns ss ds = map (\<lambda>kv. flameNodeOf (snd kv)) entries
       \<and> ((\<forall>j < length ss. ss ! j = k \<longrightarrow> j < length ds \<and> ds ! j \<noteq> Fin 0 \<and> ds ! j \<noteq> NaN) \<longrightarrow>
            map (\<lambda>kv. (selfTime (snd kv), totalTime (snd kv))) (filter (\<lambda>kv. fst kv = k) entries)
              = map (\<lambda>kv. (specTotalTime k ss ds, specTotalTime k ss ds))
                  (filter (\<lambda>kv. fst kv = k) nodeMap)))
   \<and> (a \<noteq> b \<longrightarrow>
        map f_value (processProfileNodes
          [\<lparr>n_id = a, n_callFrame = fa\<rparr>, \<lparr>n_id = b, n_callFrame = fb\<rparr>]
          [a, b, a, b] [Fin 10, Fin 20, Fin 30, Fin 40]) = [Fin 40, Fin 60])"
proof -
  let ?m0 = "buildNodeMap 0 ns []"
  have step: "i < length ss \<and> i < length ds \<and> ds ! i \<noteq> Fin 0 \<and> ds ! i \<noteq> NaN \<longrightarrow>
         addSamples 0 (take (Suc i) ss) ds ?m0 =
           (case map_of (addSamples 0 (take i ss) ds ?m0) (ss ! i) of
              None \<Rightarrow> addSamples 0 (take i ss) ds ?m0
            | Some node \<Rightarrow>
                AList.update (ss ! i)
                  (node\<lparr>selfTime := jsAdd (selfTime node) (ds ! i),
                        totalTime := jsAdd (totalTime node) (ds ! i)\<rparr>)
                  (addSamples 0 (take i ss) ds ?m0))"
  proof (intro impI, elim conjE)
    assume i: "i < length ss" and "i < length ds" "ds ! i \<noteq> Fin 0" "ds ! i \<noteq> NaN"
    then have "timeDeltaAt ds i = ds ! i" by (simp add: timeDeltaAt_def truthy_iff)
    then show "addSamples 0 (take (Suc i) ss) ds ?m0 =
           (case map_of (addSamples 0 (take i ss) ds ?m0) (ss ! i) of
              None \<Rightarrow> addSamples 0 (take i ss) ds ?m0
            | Some node \<Rightarrow>
                AList.update (ss ! i)
                  (node\<lparr>selfTime := jsAdd (selfTime node) (ds ! i),
                        totalTime := jsAdd (totalTime node) (ds ! i)\<rparr>)
                  (addSamples 0 (take i ss) ds ?m0))"
      unfolding step_at [OF i] by (simp add: addSample_def Let_def)
  qed
  have node: "(\<forall>j < length ss. ss ! j = k \<longrightarrow> j < length ds \<and> ds ! j \<noteq> Fin 0 \<and> ds ! j \<noteq> NaN) \<longrightarrow>
            map (\<lambda>kv. (selfTime (snd kv), totalTime (snd kv)))
                (filter (\<lambda>kv. fst kv = k) (addSamples 0 ss ds ?m0))
              = map (\<lambda>kv. (specTotalTime k ss ds, specTotalTime k ss ds))
                  (filter (\<lambda>kv. fst kv = k) ?m0)"
  proof
    assume h: "\<forall>j < length ss. ss ! j = k \<longrightarrow> j < length ds \<and> ds ! j \<noteq> Fin 0 \<and> ds ! j \<noteq> NaN"
    have "map (\<lambda>j. timeDeltaAt ds (0 + j)) (filter (\<lambda>j. ss ! j = k) [0..<length ss])
          = map (\<lambda>j. ds ! j) (filter (\<lambda>j. ss ! j = k) [0..<length ss])"
      using h by (intro map_cong) (auto simp: timeDeltaAt_def truthy_iff)
    then have dk: "foldl jsAdd (Fin 0) (deltasFrom 0 k ss ds) = specTotalTime k ss ds"
      by (simp only: deltasFrom_nth specTotalTime_def)
    have z: "\<And>kv. kv \<in> set ?m0 \<Longrightarrow> selfTime (snd kv) = Fin 0 \<and> totalTime (snd kv) = Fin 0"
      by (rule buildNodeMap_zero [of "[]"]) simp_all
    have "filter (\<lambda>kv. fst kv = k) (addSamples 0 ss ds ?m0)
          = map (\<lambda>kv. (fst kv, addTimes (deltasFrom 0 (fst kv) ss ds) (snd kv)))
              (filter (\<lambda>kv. fst kv = k) ?m0)"
      unfolding nodeMap_entries by (simp add: filter_map comp_def)
    also have "map (\<lambda>kv. (selfTime (snd kv), totalTime (snd kv))) \<dots>
          = map (\<lambda>kv. (specTotalTime k ss ds, specTotalTime k ss ds))
              (filter (\<lambda>kv. fst kv = k) ?m0)"
      unfolding map_map comp_def
      by (rule map_cong) (auto simp: addTimes_def z dk)
    finally show "map (\<lambda>kv. (selfTime (snd kv), totalTime (snd kv)))
                (filter (\<lambda>kv. fst kv = k) (addSamples 0 ss ds ?m0))
              = map (\<lambda>kv. (specTotalTime k ss ds, specTotalTime k ss ds))
                  (filter (\<lambda>kv. fst kv = k) ?m0)" .
  qed
  have ex: "a \<noteq> b \<longrightarrow>
        map f_value (processProfileNodes
          [\<lparr>n_id = a, n_callFrame = fa\<rparr>, \<lparr>n_id = b, n_callFrame = fb\<rparr>]
          [a, b, a, b] [Fin 10, Fin 20, Fin 30, Fin 40]) = [Fin 40, Fin 60]"
    by (simp add: processProfileNodes_def flameNodeOf_def addSample_def timeDeltaAt_def Let_def
          fl_numeral)
  have gen: "let nodeMap = buildNodeMap 0 ns [];
        entries = addSamples 0 ss ds nodeMap;
        before = addSamples 0 (take i ss) ds nodeMap;
        after = addSamples 0 (take (Suc i) ss) ds nodeMap
    in (i < length ss \<and> i < length ds \<and> ds ! i \<noteq> Fin 0 \<and> ds ! i \<noteq> NaN \<longrightarrow>
          after = (case map_of before (ss ! i) of
                     None \<Rightarrow> before
                   | Some node \<Rightarrow>
                       AList.update (ss ! i)
                         (node\<lparr>selfTime := jsAdd (selfTime node) (ds ! i),
                               totalTime := jsAdd (totalTime node) (ds ! i)\<rparr>) before))
       \<and> addSamples 0 (take (length ss) ss) ds nodeMap = entries
       \<and> processProfileNodes ns ss ds = map (\<lambda>kv. flameNodeOf (snd kv)) entries
       \<and> ((\<forall>j < length ss. ss ! j = k \<longrightarrow> j < length ds \<and> ds ! j \<noteq> Fin 0 \<and> ds ! j \<noteq> NaN) \<longrightarrow>
            map (\<lambda>kv. (selfTime (snd kv), totalTime (snd kv))) (filter (\<lambda>kv. fst kv = k) entries)
              = map (\<lambda>kv. (specTotalTime k ss ds, specTotalTime k ss ds))
                  (filter (\<lambda>kv. fst kv = k) nodeMap))"
    unfolding Let_def using step node by (simp add: processProfileNodes_def)
  from gen ex show ?thesis ..
qed

theorem flame_graph_totals_witness:
  "n_id nodeA \<noteq> n_id nodeB
   \<and> map f_value (processProfileNodes [nodeA, nodeB] [1, 2, 1, 2]
                    [Fin 10, Fin 20, Fin 30, Fin 40]) = [Fin 40, Fin 60]
   \<and> addSamples 0 (take 1 [1, 2, 1, 2]) [Fin 10, Fin 0, Fin 30, Fin 40]
        (buildNodeMap 0 [nodeA, nodeB] [])
       = AList.update 1
           \<lparr>e_node = nodeA, e_index = 0, e_children = [], selfTime = Fin 10, totalTime = Fin 10\<rparr>
           (buildNodeMap 0 [nodeA, nodeB] [])
   \<and> map (\<lambda>kv. totalTime (snd kv))
        (filter (\<lambda>kv. fst kv = 1)
           (addSamples 0 [1, 2, 1, 2] [Fin 10, Fin 0, Fin 30, Fin 40]
              (buildNodeMap 0 [nodeA, nodeB] []))) = [Fin 40]"
  using flame_graph_totals
          [where i = 0 and ss = "[1, 2, 1, 2]" and ds = "[Fin 10, Fin 0, Fin 30, Fin 40]"
             and ns = "[nodeA, nodeB]" and k = 1 and a = 1 and b = 2
             and fa = "n_callFrame nodeA" and fb = "n_callFrame nodeB"]
  by (simp add: nodeA_def nodeB_def Let_def specTotalTime_def upt_rec All_less_Suc nth_Cons'
        processProfileNodes_def flameNodeOf_def addSample_def timeDeltaAt_def
        fl_numeral fl_one fl_zero)

text \<open>
  Claim C7 as stated fails for a pair whose delta is 0: one node, sampled once with the
  delta 0, has the value 1 and not the sum of its deltas, 0.
\<close>

theorem flame_graph_zero_delta_counterexample:
  "map f_value (processProfileNodes [nodeA] [1] [Fin 0]) = [Fin 1]
   \<and> map (\<lambda>node. specTotalTime (n_id node) [1] [Fin 0]) [nodeA] = [Fin 0]"
  by (simp add: processProfileNodes_def flameNodeOf_def addSample_def timeDeltaAt_def
        specTotalTime_def nodeA_def Let_def fl_one fl_zero)

section \<open>Memory profile\<close>

lemma sampleLoop_closed:
  "sampleLoop t r c smps = smps @ map r [c..<c + max 1 (nat \<lceil>t\<rceil> - c)]"
proof (induction t r c smps rule: sampleLoop.induct)
  case (1 t r c smps)
  show ?case
  proof (cases "of_nat (c + 1) \<ge> t")
    case True
    then have "\<lceil>t\<rceil> \<le> int c + 1"
      by (simp add: ceiling_le_iff)
    then have "max 1 (nat \<lceil>t\<rceil> - c) = 1" by linarith
    with True show ?thesis
      by (subst sampleLoop.simps) (simp add: Let_def)
  next
    case False
    then have "rat_of_int (int c + 1) < t" by simp
    then have lt: "int c + 1 < \<lceil>t\<rceil>" by (simp add: less_ceiling_iff)
    then have m1: "c + max 1 (nat \<lceil>t\<rceil> - c) = nat \<lceil>t\<rceil>"
      and m2: "c + 1 + max 1 (nat \<lceil>t\<rceil> - (c + 1)) = nat \<lceil>t\<rceil>"
      and clt: "c < nat \<lceil>t\<rceil>"
      by linarith+
    have "sampleLoop t r c smps = sampleLoop t r (c + 1) (smps @ [r c])"
      using False by (subst sampleLoop.simps) (simp add: Let_def)
    also have "\<dots> = (smps @ [r c]) @ map r [c + 1..<c + 1 + max 1 (nat \<lceil>t\<rceil> - (c + 1))]"
      using False by (intro "1.IH") (simp_all add: Let_def)
    also have "\<dots> = smps @ map r [c..<c + max 1 (nat \<lceil>t\<rceil> - c)]"
      unfolding m1 m2 using clt by (simp add: upt_conv_Cons)
    finally show ?thesis .
  qed
qed

lemma fold_min_Min: "vs \<noteq> [] \<Longrightarrow> fold min vs (vs ! 0) = Min (set vs)"
proof (cases vs)
  case Nil
  assume "vs \<noteq> []" with Nil show ?thesis by simp
next
  case (Cons v vs')
  then show ?thesis using Min.set_eq_fold [of v vs'] by simp
qed

lemma fold_max_Max: "vs \<noteq> [] \<Longrightarrow> fold max vs (vs ! 0) = Max (set vs)"
proof (cases vs)
  case Nil
  assume "vs \<noteq> []" with Nil show ?thesis by simp
next
  case (Cons v vs')
  then show ?thesis using Max.set_eq_fold [of v vs'] by simp
qed

lemma foldl_plus_sum_list: "foldl (\<lambda>sum val. sum + val) a vs = a + sum_list (vs :: int list)"
  by (induction vs arbitrary: a) (simp_all add: add.assoc)

lemma statsOf_closed:
  "vs \<noteq> [] \<Longrightarrow>
     statsOf vs = \<lparr>s_min = Min (set vs), s_max = Max (set vs),
                   s_avg = of_int (sum_list vs) / of_nat (length vs)\<rparr>"
  by (simp add: statsOf_def fold_min_Min fold_max_Max foldl_plus_sum_list)

text \<open>
  Claim C3, as amended. For every duration \<open>d\<close> in ms, \<open>profileMemory(d)\<close> records
  exactly \<open>ceiling (d / 100)\<close> memory samples, and one sample when that is less than 1:
  the quotient is rounded up, not down. The samples are the readings of the first ticks,
  in order. When the write goes through, the artifact \<open>memory_<now>.json\<close> holds the id,
  the duration, the samples and the summary (minimum, maximum and mean of \<open>heapUsed\<close>,
  \<open>heapTotal\<close> and \<open>external\<close>, and the growth rate of \<open>heapUsed\<close>), and the profile is
  registered with its sample count; when the write fails, the failure is logged, nothing
  is registered and the call resolves with \<open>null\<close>.
\<close>

theorem profileMemory_sample_count:
  "let profileId = (Memory, now);
       filepath = (outputDir (cfg s), (profileId, ''.json''));
       n = max 1 (nat \<lceil>rat_of_int duration / 100\<rceil>);
       smps = map readings [0..<n];
       heapUseds = map (\<lambda>m. heapUsed (m_usage m)) smps;
       heapTotals = map (\<lambda>m. heapTotal (m_usage m)) smps;
       externals = map (\<lambda>m. external (m_usage m)) smps;
       stats = (\<lambda>vs. \<lparr>s_min = Min (set vs), s_max = Max (set vs),
                        s_avg = of_int (sum_list vs) / of_nat (length vs)\<rparr>);
       summary = \<lparr>sum_heapUsed = stats heapUseds, sum_heapTotal = stats heapTotals,
                  sum_external = stats externals,
                  growthRate = calculateGrowthRate heapUseds\<rparr>;
       result = profileMemory_run profileId duration readings tDone fs s
   in profileMemory now duration s = (Inr profileId, logger (Info_StartMemory profileId duration) s)
      \<and> length smps = n
      \<and> n = max 1 (nat (- ((- duration) div 100)))
      \<and> (filepath \<notin> denied fs \<longrightarrow>
           fst result = Some filepath
           \<and> files (fst (snd result)) filepath =
               Some (MemoryArtifact \<lparr>md_profileId = profileId, md_type = Memory,
                       md_duration = duration, md_samples = smps, md_summary = Some summary\<rparr>)
           \<and> map_of (profiles (snd (snd result))) profileId =
               Some \<lparr>p_type = Memory, p_filename = (profileId, ''.json''), p_filepath = filepath,
                     p_timestamp = tDone, p_duration = Some duration, p_size = None,
                     p_samples = Some n\<rparr>)
      \<and> (filepath \<in> denied fs \<longrightarrow>
           result = (None, fs, logger Error_SaveMemoryFailed s))"
proof -
  define n where "n = max 1 (nat \<lceil>rat_of_int duration / 100\<rceil>)"
  define smps where "smps = map readings [0..<n]"
  have loop: "sampleLoop (rat_of_int duration / rat_of_int 100) readings 0 [] = smps"
    by (simp add: sampleLoop_closed smps_def n_def)
  have n1: "1 \<le> n" by (simp add: n_def)
  then have ne: "smps \<noteq> []" by (simp add: smps_def)
  have ceil: "\<lceil>rat_of_int duration / 100\<rceil> = - ((- duration) div 100)"
    using ceiling_divide_eq_div [of duration 100, where ?'a = rat] by simp
  have summ: "analyzeMemoryProfile smps =
     Some \<lparr>sum_heapUsed = statsOf (map (\<lambda>m. heapUsed (m_usage m)) smps),
           sum_heapTotal = statsOf (map (\<lambda>m. heapTotal (m_usage m)) smps),
           sum_external = statsOf (map (\<lambda>m. external (m_usage m)) smps),
           growthRate = calculateGrowthRate (map (\<lambda>m. heapUsed (m_usage m)) smps)\<rparr>"
    using ne by (simp add: analyzeMemoryProfile_def Let_def)
  have st: "\<And>f. statsOf (map f smps) =
      \<lparr>s_min = Min (set (map f smps)), s_max = Max (set (map f smps)),
       s_avg = of_int (sum_list (map f smps)) / of_nat (length (map f smps))\<rparr>"
    using ne by (intro statsOf_closed) simp
  have run_ok: "(outputDir (cfg s), ((Memory, now), ''.json'')) \<notin> denied fs \<Longrightarrow>
      profileMemory_run (Memory, now) duration readings tDone fs s =
        (Some (outputDir (cfg s), ((Memory, now), ''.json'')),
         fs\<lparr>files := (files fs)((outputDir (cfg s), ((Memory, now), ''.json'')) :=
            Some (MemoryArtifact \<lparr>md_profileId = (Memory, now), md_type = Memory,
                       md_duration = duration, md_samples = smps,
                       md_summary = analyzeMemoryProfile smps\<rparr>))\<rparr>,
         logger (Success_MemorySaved ((Memory, now), ''.json''))
           (s\<lparr>profiles := AList.update (Memory, now)
               \<lparr>p_type = Memory, p_filename = ((Memory, now), ''.json''),
                p_filepath = (outputDir (cfg s), ((Memory, now), ''.json'')),
                p_timestamp = tDone, p_duration = Some duration,
                p_size = None, p_samples = Some (length smps)\<rparr> (profiles s)\<rparr>))"
    unfolding profileMemory_run_def Let_def loop by (simp add: writeFile_def)
  have run_fail: "(outputDir (cfg s), ((Memory, now), ''.json'')) \<in> denied fs \<Longrightarrow>
      profileMemory_run (Memory, now) duration readings tDone fs s =
        (None, fs, logger Error_SaveMemoryFailed s)"
    unfolding profileMemory_run_def Let_def loop by (simp add: writeFile_def)
  have len: "length smps = n" by (simp add: smps_def)
  show ?thesis
    unfolding Let_def n_def [symmetric] smps_def [symmetric]
    using run_ok run_fail len
    by (auto simp: profileMemory_def Let_def summ st logger_def update_Some_unfold
          n_def ceil)
qed

theorem profileMemory_sample_count_witness:
  "(''./profiles'', ((Memory, 1000), ''.json'')) \<notin> denied emptyFs
   \<and> fst (profileMemory_run (Memory, 1000) 250 exampleReadings 1300 emptyFs
            (newProfiler exampleConfig)) = Some (''./profiles'', ((Memory, 1000), ''.json''))
   \<and> map_of (profiles (snd (snd (profileMemory_run (Memory, 1000) 250 exampleReadings 1300
         emptyFs (newProfiler exampleConfig))))) (Memory, 1000) =
       Some \<lparr>p_type = Memory, p_filename = ((Memory, 1000), ''.json''),
             p_filepath = (''./profiles'', ((Memory, 1000), ''.json'')),
             p_timestamp = 1300, p_duration = Some 250, p_size = None, p_samples = Some 3\<rparr>
   \<and> (''./profiles'', ((Memory, 1000), ''.json'')) \<in> denied readOnlyFs
   \<and> profileMemory_run (Memory, 1000) 250 exampleReadings 1300 readOnlyFs
        (newProfiler exampleConfig)
       = (None, readOnlyFs, logger Error_SaveMemoryFailed (newProfiler exampleConfig))"
  using profileMemory_sample_count [of 1000 "newProfiler exampleConfig" 250 exampleReadings
          1300 emptyFs]
    profileMemory_sample_count [of 1000 "newProfiler exampleConfig" 250 exampleReadings
          1300 readOnlyFs]
  by (simp add: Let_def newProfiler_def exampleConfig_def emptyFs_def readOnlyFs_def)

text \<open>
  Claim C3 as stated fails when the duration is not a multiple of 100 ms: for 150 ms
  the quotient rounded down is 1, and two samples are recorded and registered.
\<close>

theorem profileMemory_floor_counterexample:
  "length (sampleLoop (rat_of_int 150 / rat_of_int 100) exampleReadings 0 []) = 2
   \<and> max 1 (nat ((150 :: int) div 100)) = 1
   \<and> map (\<lambda>kv. p_samples (snd kv))
        (profiles (snd (snd (profileMemory_run (Memory, 1000) 150 exampleReadings 1200 emptyFs
           (newProfiler exampleConfig))))) = [Some 2]"
  by (simp add: sampleLoop.simps [of _ _ 0] sampleLoop.simps [of _ _ "Suc 0"]
        sampleLoop.simps [of _ _ 1]
        newProfiler_def exampleConfig_def profileMemory_run_def
        emptyFs_def writeFile_def logger_def Let_def)

section \<open>Retention of stored profiles\<close>

lemma fold_delete_filter:
  "fold AList.delete ks m = filter (\<lambda>kv. fst kv \<notin> set ks) m"
proof (induction ks arbitrary: m)
  case Nil
  then show ?case by simp
next
  case (Cons k ks)
  have "AList.delete k m = filter (\<lambda>kv. fst kv \<noteq> k) m"
    by (induction m) auto
  then show ?case
    using Cons.IH [of "AList.delete k m"] by (auto intro: filter_cong)
qed

lemma unlink_files_None:
  "unlink p fs = Some fs1 \<Longrightarrow>
     denied fs1 = denied fs \<and> (\<forall>q. files fs q = None \<longrightarrow> files fs1 q = None)"
  by (auto simp: unlink_def split: if_splits)

lemma unlink_None_iff: "unlink p fs = None \<longleftrightarrow> p \<in> denied fs \<or> files fs p = None"
  by (simp add: unlink_def)

lemma cleanupLoop_result:
  "cleanupLoop cutoff ps td fs s = (td1, fs1, s1) \<Longrightarrow>
     td1 = td @ map fst (filter (\<lambda>kv. p_timestamp (snd kv) < cutoff) ps)
     \<and> s1 = s\<lparr>logged := logged s1\<rparr>
     \<and> set (logged s) \<subseteq> set (logged s1)
     \<and> denied fs1 = denied fs
     \<and> (\<forall>q. files fs q = None \<longrightarrow> files fs1 q = None)
     \<and> (\<forall>kv \<in> set ps. p_timestamp (snd kv) < cutoff \<and> unlink (p_filepath (snd kv)) fs = None
           \<longrightarrow> Error_DeleteFailed (p_filename (snd kv)) \<in> set (logged s1))"
proof (induction cutoff ps td fs s arbitrary: td1 fs1 s1 rule: cleanupLoop.induct)
  case (1 cutoff toDelete fs s)
  then show ?case by simp
next
  case (2 cutoff profileId profile rest toDelete fs s)
  show ?case
  proof (cases "p_timestamp profile < cutoff")
    case False
    with "2.prems" have "cleanupLoop cutoff rest toDelete fs s = (td1, fs1, s1)" by simp
    from "2.IH"(3) [OF False this] False show ?thesis by simp
  next
    case True
    show ?thesis
    proof (cases "unlink (p_filepath profile) fs")
      case None
      with True "2.prems"
      have run: "cleanupLoop cutoff rest (toDelete @ [profileId]) fs
                   (logger (Error_DeleteFailed (p_filename profile)) s) = (td1, fs1, s1)"
        by simp
      from "2.IH"(1) [OF True None run] True None show ?thesis
        by (auto simp: logger_def)
    next
      case (Some fs2)
      with True "2.prems"
      have run: "cleanupLoop cutoff rest (toDelete @ [profileId]) fs2
                   (logger (Info_Deleted (p_filename profile)) s) = (td1, fs1, s1)"
        by simp
      note u = unlink_files_None [OF Some]
      have mono: "\<And>q. unlink q fs = None \<Longrightarrow> unlink q fs2 = None"
        using u by (auto simp: unlink_None_iff)
      from "2.IH"(2) [OF True Some run] True Some u mono show ?thesis
        by (auto simp: logger_def)
    qed
  qed
qed

lemma attempts_files:
  "denied (foldl (\<lambda>fs p. case unlink p fs of None \<Rightarrow> fs | Some fs1 \<Rightarrow> fs1) fs ps) = denied fs
   \<and> files (foldl (\<lambda>fs p. case unlink p fs of None \<Rightarrow> fs | Some fs1 \<Rightarrow> fs1) fs ps)
       = (\<lambda>p. if p \<in> set ps \<and> p \<notin> denied fs then None else files fs p)"
proof (induction ps arbitrary: fs)
  case Nil
  show ?case by simp
next
  case (Cons p ps)
  let ?fs1 = "case unlink p fs of None \<Rightarrow> fs | Some fs1 \<Rightarrow> fs1"
  have d: "denied ?fs1 = denied fs"
    by (simp add: unlink_def)
  have f: "files ?fs1 = (if unlink p fs = None then files fs else (files fs)(p := None))"
    by (simp add: unlink_def)
  show ?case
    using Cons.IH [of ?fs1] unfolding foldl_Cons d f
    by (auto simp: fun_eq_iff unlink_def)
qed

lemma cleanupLoop_run:
  "cleanupLoop cutoff ps td fs s =
     (td @ map fst (filter (\<lambda>kv. p_timestamp (snd kv) < cutoff) ps),
      foldl (\<lambda>fs p. case unlink p fs of None \<Rightarrow> fs | Some fs1 \<Rightarrow> fs1) fs
        (map (\<lambda>kv. p_filepath (snd kv)) (filter (\<lambda>kv. p_timestamp (snd kv) < cutoff) ps)),
      s\<lparr>logged := logged s @
          map (\<lambda>i. if unlink
                        (map (\<lambda>kv. p_filepath (snd kv))
                           (filter (\<lambda>kv. p_timestamp (snd kv) < cutoff) ps) ! i)
                        (foldl (\<lambda>fs p. case unlink p fs of None \<Rightarrow> fs | Some fs1 \<Rightarrow> fs1) fs
                           (take i (map (\<lambda>kv. p_filepath (snd kv))
                              (filter (\<lambda>kv. p_timestamp (snd kv) < cutoff) ps)))) = None
                    then Error_DeleteFailed
                           (p_filename (snd (filter (\<lambda>kv. p_timestamp (snd kv) < cutoff) ps ! i)))
                    else Info_Deleted
                           (p_filename (snd (filter (\<lambda>kv. p_timestamp (snd kv) < cutoff) ps ! i))))
            [0..<length (filter (\<lambda>kv. p_timestamp (snd kv) < cutoff) ps)]\<rparr>)"
proof (induction ps arbitrary: td fs s)
  case Nil
  show ?case by simp
next
  case (Cons kv ps)
  obtain profileId profile where kv: "kv = (profileId, profile)" by (cases kv)
  show ?case
  proof (cases "p_timestamp profile < cutoff")
    case False
    then show ?thesis unfolding kv by (simp add: Cons.IH)
  next
    case True
    show ?thesis
    proof (cases "unlink (p_filepath profile) fs")
      case None
      show ?thesis
        unfolding kv using True None
        by (simp add: Cons.IH logger_def map_upt_Suc del: upt_Suc)
    next
      case (Some fs1)
      show ?thesis
        unfolding kv using True Some
        by (simp add: Cons.IH logger_def map_upt_Suc del: upt_Suc)
    qed
  qed
qed

text \<open>
  Claim C1, as amended. When the profile ids of the mapping are distinct (it is a map),
  \<open>cleanupProfiles\<close> attempts to delete the artifact file of every entry whose time
  stamp is older than \<open>now - maxAge\<close>, in the order of the mapping, each attempt on the
  output directory as the earlier attempts left it; the resulting directory lacks the
  files of these entries, except those whose deletion is refused, and is otherwise
  unchanged. Each attempt is logged, a successful one as \<open>Deleted old profile\<close> and a
  failed one (the file is missing or the deletion is refused) as an error, followed by
  the number of entries cleaned up. All these entries are removed from the mapping,
  whether the deletion succeeded or failed, and every other entry is kept.
\<close>

theorem cleanup_removes_expired:
  assumes "distinct (map fst (profiles s))"
  shows "let cutoff = now - maxAge;
             expired = filter (\<lambda>kv. p_timestamp (snd kv) < cutoff) (profiles s);
             paths = map (\<lambda>kv. p_filepath (snd kv)) expired;
             attempt = (\<lambda>fs p. case unlink p fs of None \<Rightarrow> fs | Some fs1 \<Rightarrow> fs1);
             fsAt = (\<lambda>i. foldl attempt fs (take i paths));
             outcome = (\<lambda>i. if unlink (paths ! i) (fsAt i) = None
                             then Error_DeleteFailed (p_filename (snd (expired ! i)))
                             else Info_Deleted (p_filename (snd (expired ! i))))
         in cleanupProfiles now maxAge fs s =
              (fsAt (length paths),
               s\<lparr>profiles := filter (\<lambda>kv. \<not> p_timestamp (snd kv) < cutoff) (profiles s),
                 logged := logged s @ map outcome [0..<length expired]
                             @ [Info_CleanedUp (length expired)]\<rparr>)
            \<and> denied (fsAt (length paths)) = denied fs
            \<and> files (fsAt (length paths)) =
                (\<lambda>p. if p \<in> set paths \<and> p \<notin> denied fs then None else files fs p)"
proof -
  define cutoff where "cutoff = now - maxAge"
  define expired where "expired = filter (\<lambda>kv. p_timestamp (snd kv) < cutoff) (profiles s)"
  have key: "\<And>kv. kv \<in> set (profiles s) \<Longrightarrow>
               fst kv \<in> fst ` set expired \<longleftrightarrow> p_timestamp (snd kv) < cutoff"
  proof -
    fix kv assume mem: "kv \<in> set (profiles s)"
    show "fst kv \<in> fst ` set expired \<longleftrightarrow> p_timestamp (snd kv) < cutoff"
    proof
      assume "fst kv \<in> fst ` set expired"
      then obtain kv' where kv': "kv' \<in> set (profiles s)" "p_timestamp (snd kv') < cutoff"
        "fst kv' = fst kv"
        unfolding expired_def by auto
      with mem assms have "kv' = kv"
        by (metis distinct_map inj_onD)
      with kv' show "p_timestamp (snd kv) < cutoff" by simp
    next
      assume "p_timestamp (snd kv) < cutoff"
      with mem show "fst kv \<in> fst ` set expired" unfolding expired_def by auto
    qed
  qed
  have kept: "filter (\<lambda>kv. fst kv \<notin> fst ` set expired) (profiles s)
                = filter (\<lambda>kv. \<not> p_timestamp (snd kv) < cutoff) (profiles s)"
    by (rule filter_cong) (simp_all only: key)
  have run: "cleanupProfiles now maxAge fs s =
          (foldl (\<lambda>fs p. case unlink p fs of None \<Rightarrow> fs | Some fs1 \<Rightarrow> fs1) fs
             (map (\<lambda>kv. p_filepath (snd kv)) expired),
           s\<lparr>profiles := filter (\<lambda>kv. \<not> p_timestamp (snd kv) < cutoff) (profiles s),
             logged := logged s @
               map (\<lambda>i. if unlink (map (\<lambda>kv. p_filepath (snd kv)) expired ! i)
                             (foldl (\<lambda>fs p. case unlink p fs of None \<Rightarrow> fs | Some fs1 \<Rightarrow> fs1) fs
                                (take i (map (\<lambda>kv. p_filepath (snd kv)) expired))) = None
                         then Error_DeleteFailed (p_filename (snd (expired ! i)))
                         else Info_Deleted (p_filename (snd (expired ! i))))
                 [0..<length expired]
               @ [Info_CleanedUp (length expired)]\<rparr>)"
    unfolding cleanupProfiles_def Let_def cutoff_def [symmetric] cleanupLoop_run
      expired_def [symmetric]
    by (simp add: logger_def fold_delete_filter kept)
  show ?thesis
    unfolding Let_def cutoff_def [symmetric] expired_def [symmetric]
    using run attempts_files [of fs "map (\<lambda>kv. p_filepath (snd kv)) expired"]
    by simp
qed

theorem cleanup_removes_expired_witness:
  "distinct (map fst (profiles archive))
   \<and> map fst (filter (\<lambda>kv. p_timestamp (snd kv) < 100000000 - 86400000) (profiles archive))
       = [(Cpu, 1000), (Cpu, 2000)]
   \<and> files archiveFs (p_filepath (savedProfile 1000 31000)) = Some storedArtifact
   \<and> files archiveFs (p_filepath (savedProfile 2000 32000)) = None
   \<and> files (fst (cleanupProfiles 100000000 86400000 archiveFs archive))
        (p_filepath (savedProfile 1000 31000)) = None
   \<and> files (fst (cleanupProfiles 100000000 86400000 archiveFs archive))
        (p_filepath (savedProfile 90000000 90030000)) = Some storedArtifact
   \<and> profiles (snd (cleanupProfiles 100000000 86400000 archiveFs archive))
       = [((Cpu, 90000000), savedProfile 90000000 90030000)]
   \<and> logged (snd (cleanupProfiles 100000000 86400000 archiveFs archive))
       = [Info_Deleted (p_filename (savedProfile 1000 31000)),
          Error_DeleteFailed (p_filename (savedProfile 2000 32000)),
          Info_CleanedUp 2]"
  using cleanup_removes_expired [where s = archive and now = 100000000 and maxAge = 86400000
          and fs = archiveFs]
  by (simp add: archive_def archiveFs_def savedProfile_def newProfiler_def unlink_def Let_def
        upt_rec)

text \<open>
  Claim C1 as stated fails: the entry of a profile older than the cut-off whose file
  cannot be deleted (here it does not exist) is not in the mapping after the cleanup.
\<close>

theorem cleanup_failed_delete_counterexample:
  "map_of (profiles staleProfiler) (Cpu, 1000) = Some oldProfile
   \<and> p_timestamp oldProfile < 100000000 - 86400000
   \<and> unlink (p_filepath oldProfile) emptyFs = None
   \<and> map_of (profiles (snd (cleanupProfiles 100000000 86400000 emptyFs staleProfiler)))
        (Cpu, 1000) = None"
  by (simp add: staleProfiler_def oldProfile_def newProfiler_def emptyFs_def unlink_def
        cleanupProfiles_def logger_def Let_def)

section \<open>Capture while the session is inactive\<close>

lemma cleanupLoop_session:
  "cleanupLoop cutoff ps td fs s = (td1, fs1, s1) \<Longrightarrow>
     isRunning s1 = isRunning s \<and> session s1 = session s"
  by (induction cutoff ps td fs s arbitrary: td1 fs1 s1 rule: cleanupLoop.induct)
     (auto simp: logger_def split: if_splits option.splits)

lemma cleanupProfiles_session:
  "isRunning (snd (cleanupProfiles now maxAge fs s)) = isRunning s
   \<and> session (snd (cleanupProfiles now maxAge fs s)) = session s"
proof -
  obtain td1 fs1 s1 where run: "cleanupLoop (now - maxAge) (profiles s) [] fs s = (td1, fs1, s1)"
    by (cases "cleanupLoop (now - maxAge) (profiles s) [] fs s") auto
  with cleanupLoop_session [OF run] show ?thesis
    by (simp add: cleanupProfiles_def logger_def Let_def)
qed

lemma entry_session:
  "isRunning (handlePerformanceEntry e t1 t2 t3 s) = isRunning s
   \<and> session (handlePerformanceEntry e t1 t2 t3 s) = session s"
  by (cases e)
     (simp_all add: handleGCEntry_def handleMeasureEntry_def handleMarkEntry_def
        handleFunctionEntry_def emit_def logger_def Let_def)

lemma reachable_session:
  "reachable s \<Longrightarrow> sessionClosedWhenStopped s"
proof (induction rule: reachable.induct)
  case (r_new c)
  then show ?case by (simp add: sessionClosedWhenStopped_def newProfiler_def)
next
  case (r_start s inspectorOpen openOk connectOk)
  then show ?case
    by (auto simp: sessionClosedWhenStopped_def start_def emit_def logger_def Let_def)
next
  case (r_stop s)
  then show ?case
    by (auto simp: sessionClosedWhenStopped_def stop_def emit_def logger_def Let_def)
next
  case (r_entry s e t1 t2 t3)
  then show ?case
    by (auto simp: sessionClosedWhenStopped_def entry_session)
next
  case (r_tick s memUsage cpuUse t1 t2 t3)
  then show ?case
    by (auto simp: sessionClosedWhenStopped_def monitorTick_def collectSystemMetrics_def
          emit_def Let_def)
next
  case (r_cpu s now duration)
  then show ?case
    by (auto simp: sessionClosedWhenStopped_def profileCPU_def logger_def Let_def
             split: if_splits)
next
  case (r_cpu_stopped s pid duration err profile n tDone fs)
  then show ?case
    by (auto simp: sessionClosedWhenStopped_def profileCPU_stopped_def emit_def logger_def
                   Let_def split: option.splits)
next
  case (r_heap s now streamOk fs)
  then show ?case
    by (auto simp: sessionClosedWhenStopped_def takeHeapSnapshot_def logger_def Let_def
             split: if_splits option.splits)
next
  case (r_heap_done s pid chunks err tDone fs)
  then show ?case
    by (auto simp: sessionClosedWhenStopped_def takeHeapSnapshot_done_def emit_def logger_def
                   Let_def split: option.splits)
next
  case (r_memory s now duration)
  then show ?case
    by (auto simp: sessionClosedWhenStopped_def profileMemory_def logger_def Let_def)
next
  case (r_memory_run s pid duration readings tDone fs)
  then show ?case
    by (auto simp: sessionClosedWhenStopped_def profileMemory_run_def logger_def Let_def
             split: option.splits)
next
  case (r_cleanup s now maxAge fs)
  then show ?case
    by (auto simp: sessionClosedWhenStopped_def cleanupProfiles_session)
qed

text \<open>
  Claim C2, as amended. In every state the profiler can reach, while it is not running
  \<open>profileCPU\<close> and \<open>takeHeapSnapshot\<close> fail with the error that the profiler session is
  not active and change nothing; \<open>profileMemory\<close> has no such guard, and starts its
  capture as in any other state.
\<close>

theorem inactive_capture_rejected:
  assumes "reachable s" and "\<not> isRunning s"
  shows "profileCPU now duration s = (Inl NotActive, s)
         \<and> takeHeapSnapshot now streamOk fs s = (Inl NotActive, fs, s)
         \<and> profileMemory now duration s =
             (Inr (Memory, now), logger (Info_StartMemory (Memory, now) duration) s)"
proof -
  from reachable_session [OF assms(1)] assms(2) have "session s = None"
    by (simp add: sessionClosedWhenStopped_def)
  then show ?thesis
    by (simp add: profileCPU_def takeHeapSnapshot_def profileMemory_def Let_def)
qed

theorem inactive_capture_rejected_witness:
  "reachable stoppedProfiler \<and> \<not> isRunning stoppedProfiler
   \<and> profileCPU 7000 30000 stoppedProfiler = (Inl NotActive, stoppedProfiler)
   \<and> takeHeapSnapshot 7000 True emptyFs stoppedProfiler
       = (Inl NotActive, emptyFs, stoppedProfiler)"
proof -
  have r: "reachable stoppedProfiler"
    unfolding stoppedProfiler_def by (intro r_stop r_start r_new)
  have n: "\<not> isRunning stoppedProfiler"
    by (simp add: stoppedProfiler_def stop_def start_def newProfiler_def emit_def logger_def
          Let_def)
  from inactive_capture_rejected [OF r n, of 7000 30000 True emptyFs] r n
  show ?thesis by simp
qed

text \<open>
  Claim C2 as stated fails for \<open>profileMemory\<close>: on a new profiler, which is not running
  and holds no session, the call is not rejected, and its capture writes and registers
  a memory profile.
\<close>

theorem profileMemory_inactive_counterexample:
  "\<not> isRunning (newProfiler exampleConfig) \<and> session (newProfiler exampleConfig) = None
   \<and> fst (profileMemory 1000 100 (newProfiler exampleConfig)) = Inr (Memory, 1000)
   \<and> fst (profileMemory_run (Memory, 1000) 100 exampleReadings 1100 emptyFs
            (newProfiler exampleConfig))
       = Some (''./profiles'', ((Memory, 1000), ''.json''))
   \<and> map fst (profiles (snd (snd (profileMemory_run (Memory, 1000) 100 exampleReadings 1100
         emptyFs (newProfiler exampleConfig))))) = [(Memory, 1000)]"
  by (simp add: newProfiler_def exampleConfig_def profileMemory_def profileMemory_run_def
        emptyFs_def writeFile_def logger_def Let_def)

section \<open>The maps of a profiler have distinct keys\<close>

text \<open>
  The profile mapping and the operations map are association lists here; in every state
  the profiler can reach their keys are distinct, as in the \<open>Map\<close> objects they stand for.
\<close>

lemma pushOperation_distinct:
  "distinct (map fst ops) \<Longrightarrow> distinct (map fst (pushOperation operation r ops))"
  by (simp add: pushOperation_def Let_def distinct_update split: option.splits)

lemma entry_maps:
  "profiles (handlePerformanceEntry e t1 t2 t3 s) = profiles s
   \<and> (distinct (map fst (operations (metrics s))) \<longrightarrow>
        distinct (map fst (operations (metrics (handlePerformanceEntry e t1 t2 t3 s)))))"
  by (cases e)
     (simp_all add: handleGCEntry_def handleMeasureEntry_def handleMarkEntry_def
        handleFunctionEntry_def emit_def logger_def Let_def pushOperation_distinct)

lemma cleanupProfiles_maps:
  "metrics (snd (cleanupProfiles now maxAge fs s)) = metrics s
   \<and> (distinct (map fst (profiles s)) \<longrightarrow>
        distinct (map fst (profiles (snd (cleanupProfiles now maxAge fs s)))))"
proof -
  obtain td1 fs1 s1 where run: "cleanupLoop (now - maxAge) (profiles s) [] fs s = (td1, fs1, s1)"
    by (cases "cleanupLoop (now - maxAge) (profiles s) [] fs s") auto
  from cleanupLoop_result [OF run] have eq: "s1 = s\<lparr>logged := logged s1\<rparr>" by simp
  have ps: "profiles s1 = profiles s" and ms: "metrics s1 = metrics s"
    by (subst eq, simp)+
  show ?thesis
    using run ps ms
    by (simp add: cleanupProfiles_def logger_def Let_def fold_delete_filter distinct_map_filter)
qed

lemma reachable_maps_distinct:
  "reachable s \<Longrightarrow>
     distinct (map fst (profiles s)) \<and> distinct (map fst (operations (metrics s)))"
proof (induction rule: reachable.induct)
  case (r_new c)
  then show ?case by (simp add: newProfiler_def)
next
  case (r_start s inspectorOpen openOk connectOk)
  then show ?case by (simp add: start_def emit_def logger_def Let_def)
next
  case (r_stop s)
  then show ?case by (simp add: stop_def emit_def logger_def Let_def)
next
  case (r_entry s e t1 t2 t3)
  then show ?case by (simp add: entry_maps)
next
  case (r_tick s memUsage cpuUse t1 t2 t3)
  then show ?case
    by (simp add: monitorTick_def collectSystemMetrics_def emit_def Let_def)
next
  case (r_cpu s now duration)
  then show ?case by (simp add: profileCPU_def logger_def Let_def)
next
  case (r_cpu_stopped s pid duration err profile n tDone fs)
  then show ?case
    by (simp add: profileCPU_stopped_def emit_def logger_def Let_def distinct_update
             split: option.splits)
next
  case (r_heap s now streamOk fs)
  then show ?case by (simp add: takeHeapSnapshot_def logger_def Let_def)
next
  case (r_heap_done s pid chunks err tDone fs)
  then show ?case
    by (simp add: takeHeapSnapshot_done_def emit_def logger_def Let_def distinct_update
             split: option.splits)
next
  case (r_memory s now duration)
  then show ?case by (simp add: profileMemory_def logger_def Let_def)
next
  case (r_memory_run s pid duration readings tDone fs)
  then show ?case
    by (simp add: profileMemory_run_def logger_def Let_def distinct_update
             split: option.splits)
next
  case (r_cleanup s now maxAge fs)
  then show ?case by (simp add: cleanupProfiles_maps)
qed

end
